theory Spec2Isabelle
  imports Complex_Main "HOL-Library.AList" "HOL-Library.Multiset" "HOL-Library.Sublist"
begin

section \<open>Python values and errors\<close>

text \<open>
  The model follows \<^verbatim>\<open>tools/ort_rewriter_profiling/profile_analysis.py\<close>.
  Python's unbounded integers are \<^typ>\<open>int\<close>. Every exception the script can raise is
  a value of \<open>error\<close>, and a function that may raise returns \<open>error + 'a\<close>.
\<close>

datatype error = ZeroDivisionError | TypeError | KeyError | ValueError | SystemExit

subsection \<open>Floats\<close>

text \<open>
  A Python float is an IEEE 754 double. The model holds a float as the rational number it
  denotes and rounds the exact result of every float operation to the nearest double, a
  tie going to the double with the even significand: \<open>round_double\<close>. The significand
  has 53 bits, and below \<open>2 ^ - 1022\<close> the doubles are \<open>2 ^ - 1074\<close> apart.
  Outside the model are results beyond the range of a double (\<^verbatim>\<open>inf\<close>, \<^verbatim>\<open>nan\<close>,
  \<^verbatim>\<open>OverflowError\<close>) and the sign of a zero.
\<close>

text \<open>\<^verbatim>\<open>n.bit_length()\<close> of a positive integer, the powers of two, and the exponent
  \<open>e\<close> with \<open>2 ^ e \<le> a < 2 ^ (e + 1)\<close> of a positive rational.\<close>

function bit_length :: "int \<Rightarrow> int" where
  "bit_length n = (if n \<le> 0 then 0 else 1 + bit_length (n div 2))"
  by pat_completeness auto
termination
  by (relation "measure nat") auto

declare bit_length.simps [simp del]

definition pow2 :: "int \<Rightarrow> rat" where
  "pow2 e = (if 0 \<le> e then 2 ^ nat e else 1 / 2 ^ nat (- e))"

definition ilog2 :: "rat \<Rightarrow> int" where
  "ilog2 a =
     (case quotient_of a of (p, q) \<Rightarrow>
        let d = bit_length p - bit_length q
        in if pow2 d \<le> a then d else d - 1)"

definition round_half_even :: "rat \<Rightarrow> int" where
  "round_half_even q =
     (let f = \<lfloor>q\<rfloor>; d = q - of_int f
      in if d < 1 / 2 then f else if 1 / 2 < d then f + 1 else if even f then f else f + 1)"

definition round_double :: "rat \<Rightarrow> rat" where
  "round_double q =
     (if q = 0 then 0
      else let u = pow2 (max (ilog2 \<bar>q\<bar>) (- 1022) - 52)
           in of_int (round_half_even (q / u)) * u)"

text \<open>The float operations \<^verbatim>\<open>x + y\<close>, \<^verbatim>\<open>x - y\<close>, \<^verbatim>\<open>x * y\<close> and \<^verbatim>\<open>x / y\<close>; an
  integer operand is converted first, which is exact for the integers of the script (0,
  100 and 1000). The script divides a float by 1000 and by a number it has tested to be
  nonzero only.\<close>

definition fadd :: "rat \<Rightarrow> rat \<Rightarrow> rat" where
  "fadd x y = round_double (x + y)"

definition fsub :: "rat \<Rightarrow> rat \<Rightarrow> rat" where
  "fsub x y = round_double (x - y)"

definition fmul :: "rat \<Rightarrow> rat \<Rightarrow> rat" where
  "fmul x y = round_double (x * y)"

definition fdiv :: "rat \<Rightarrow> rat \<Rightarrow> rat" where
  "fdiv x y = round_double (x / y)"

text \<open>True division \<^verbatim>\<open>a / b\<close> of two integers, which is the correctly rounded
  quotient, and floor division \<^verbatim>\<open>a // b\<close>.\<close>

definition true_div :: "int \<Rightarrow> int \<Rightarrow> error + rat" where
  "true_div a b =
     (if b = 0 then Inl ZeroDivisionError else Inr (round_double (of_int a / of_int b)))"

definition floor_div :: "int \<Rightarrow> int \<Rightarrow> error + int" where
  "floor_div a b = (if b = 0 then Inl ZeroDivisionError else Inr (a div b))"

text \<open>\<^verbatim>\<open>int(x)\<close> of a float truncates towards zero.\<close>

definition int_of_float :: "rat \<Rightarrow> int" where
  "int_of_float q = (if 0 \<le> q then \<lfloor>q\<rfloor> else \<lceil>q\<rceil>)"

text \<open>The slice \<^verbatim>\<open>xs[k:]\<close>: a negative start counts from the end, and the start is
  clamped to the list.\<close>

definition slice_from :: "'a list \<Rightarrow> int \<Rightarrow> 'a list" where
  "slice_from xs k =
     (let n = int (length xs);
          start = (if k < 0 then max (n + k) 0 else min k n)
      in drop (nat start) xs)"

text \<open>Sequencing of two computations that may raise.\<close>

definition ebind :: "error + 'a \<Rightarrow> ('a \<Rightarrow> error + 'b) \<Rightarrow> error + 'b" where
  "ebind m f = (case m of Inl e \<Rightarrow> Inl e | Inr x \<Rightarrow> f x)"

text \<open>Evaluating a function that may raise over a list, left to right; the first
  exception ends the evaluation.\<close>

fun collect :: "('a \<Rightarrow> error + 'b) \<Rightarrow> 'a list \<Rightarrow> error + 'b list" where
  "collect f [] = Inr []"
| "collect f (x # xs) =
     (case f x of
        Inl e \<Rightarrow> Inl e
      | Inr y \<Rightarrow> (case collect f xs of Inl e \<Rightarrow> Inl e | Inr ys \<Rightarrow> Inr (y # ys)))"

text \<open>\<^verbatim>\<open>sorted(xs, key=f, reverse=True)\<close>: descending by key, and elements with equal
  keys keep their original order. Python calls the key function once on every element
  before it compares anything, so an exception of the key function ends the sort.\<close>

definition sorted_reverse :: "('a \<Rightarrow> 'k::linorder) \<Rightarrow> 'a list \<Rightarrow> 'a list" where
  "sorted_reverse f xs = rev (sort_key f (rev xs))"

definition py_sorted_reverse ::
  "('a \<Rightarrow> error + 'k::linorder) \<Rightarrow> 'a list \<Rightarrow> error + 'a list" where
  "py_sorted_reverse key xs =
     ebind (collect key xs) (\<lambda>ks. Inr (map snd (sorted_reverse fst (zip ks xs))))"

text \<open>\<^verbatim>\<open>sum(f(x) for x in xs)\<close> over floats: the accumulator starts at 0 and the terms
  are added left to right, each addition rounded. (That is \<^verbatim>\<open>sum\<close> up to CPython
  3.11; later versions carry a compensation term along.)\<close>

fun sum_gen :: "('a \<Rightarrow> error + rat) \<Rightarrow> 'a list \<Rightarrow> rat \<Rightarrow> error + rat" where
  "sum_gen f [] acc = Inr acc"
| "sum_gen f (x # xs) acc =
     (case f x of Inl e \<Rightarrow> Inl e | Inr v \<Rightarrow> sum_gen f xs (fadd acc v))"

definition startswith :: "string \<Rightarrow> string \<Rightarrow> bool" where
  "startswith s p = prefix p s"

section \<open>ProfileEntry\<close>

record ProfileEntry =
  op_type :: string
  entries :: "(string \<times> int) list"

definition ProfileEntry_total_count :: "ProfileEntry \<Rightarrow> int \<Rightarrow> error + rat" where
  "ProfileEntry_total_count e it = true_div (int (length (entries e))) it"

definition ProfileEntry_total_duration :: "ProfileEntry \<Rightarrow> int \<Rightarrow> error + rat" where
  "ProfileEntry_total_duration e it =
     (case true_div (sum_list (map snd (entries e))) it of
        Inl err \<Rightarrow> Inl err
      | Inr q \<Rightarrow> Inr (fdiv (fdiv q 1000) 1000))"

section \<open>ModelProfile\<close>

text \<open>
  A \<^verbatim>\<open>ModelProfile\<close> holds references to \<^verbatim>\<open>ProfileEntry\<close> objects, which its
  constructor mutates. Objects live in a store, addressed by reference; a dict is an
  association list in insertion order.
\<close>

type_synonym ref = nat
type_synonym store = "ref \<Rightarrow> ProfileEntry"

definition WARM_UP_ROUNDS :: int where
  "WARM_UP_ROUNDS = 1"

record ModelProfile =
  op_profiles :: "ref list"
  iteration :: int
  model_name :: "string option"
  compiler_name :: "string option"
  with_warmup :: bool
  op_profiles_dict :: "(string \<times> ref) list"

text \<open>The loop of \<^verbatim>\<open>__post_init__\<close> that discards the warmup rounds.\<close>

fun discard_warmup :: "int \<Rightarrow> ref list \<Rightarrow> store \<Rightarrow> error + store" where
  "discard_warmup it [] h = Inr h"
| "discard_warmup it (r # rs) h =
     (case floor_div (int (length (entries (h r)))) (WARM_UP_ROUNDS + it) of
        Inl e \<Rightarrow> Inl e
      | Inr q \<Rightarrow>
          discard_warmup it rs
            (h(r := (h r)\<lparr>entries := slice_from (entries (h r)) (q * WARM_UP_ROUNDS)\<rparr>)))"

text \<open>The dict comprehension \<^verbatim>\<open>{p.op_type: p for p in ps}\<close>.\<close>

definition dict_by_op_type :: "store \<Rightarrow> ref list \<Rightarrow> (string \<times> ref) list" where
  "dict_by_op_type h rs = foldl (\<lambda>d r. AList.update (op_type (h r)) r d) [] rs"

text \<open>The constructor: the dataclass's generated \<^verbatim>\<open>__init__\<close> followed by
  \<^verbatim>\<open>__post_init__\<close>. The sort evaluates the key of every element first.\<close>

definition ModelProfile_init ::
  "store \<Rightarrow> ref list \<Rightarrow> int \<Rightarrow> string option \<Rightarrow> string option \<Rightarrow> bool
     \<Rightarrow> error + (store \<times> ModelProfile)" where
  "ModelProfile_init h ops it mn cn w =
     ebind (if w then discard_warmup it ops h else Inr h) (\<lambda>h'.
     ebind (py_sorted_reverse (\<lambda>r. ProfileEntry_total_duration (h' r) 1) ops)
       (\<lambda>sorted_op_profiles.
          Inr (h', \<lparr>op_profiles = ops, iteration = it, model_name = mn,
                    compiler_name = cn, with_warmup = w,
                    op_profiles_dict = dict_by_op_type h' sorted_op_profiles\<rparr>)))"

definition filter_op_profiles ::
  "store \<Rightarrow> ModelProfile \<Rightarrow> string set \<Rightarrow> error + (store \<times> ModelProfile)" where
  "filter_op_profiles h self op_types =
     ModelProfile_init h [r \<leftarrow> op_profiles self. op_type (h r) \<in> op_types]
       (iteration self) (model_name self) (compiler_name self) False"

definition op_duration :: "store \<Rightarrow> ModelProfile \<Rightarrow> string \<Rightarrow> error + rat" where
  "op_duration h self t =
     (case map_of (op_profiles_dict self) t of
        Some r \<Rightarrow> ProfileEntry_total_duration (h r) (iteration self)
      | None \<Rightarrow> Inr 0)"

definition op_count :: "store \<Rightarrow> ModelProfile \<Rightarrow> string \<Rightarrow> error + int" where
  "op_count h self t =
     (case map_of (op_profiles_dict self) t of
        Some r \<Rightarrow>
          (case ProfileEntry_total_count (h r) (iteration self) of
             Inl e \<Rightarrow> Inl e
           | Inr q \<Rightarrow> Inr (int_of_float q))
      | None \<Rightarrow> Inr 0)"

definition total_op_count :: "store \<Rightarrow> ModelProfile \<Rightarrow> error + rat" where
  "total_op_count h self =
     sum_gen (\<lambda>r. ProfileEntry_total_count (h r) (iteration self)) (op_profiles self) 0"

definition ModelProfile_total_duration :: "store \<Rightarrow> ModelProfile \<Rightarrow> error + rat" where
  "ModelProfile_total_duration h self =
     sum_gen (\<lambda>r. ProfileEntry_total_duration (h r) (iteration self))
       [r \<leftarrow> op_profiles self. \<not> startswith (op_type (h r)) ''Batch-''] 0"

text \<open>Formatting. \<^verbatim>\<open>str\<close> of a float (its shortest round-trip representation) is a
  parameter \<open>str_float\<close> of the functions that print one; \<^verbatim>\<open>format(x, ".2f")\<close> rounds
  the exact value of the double to two decimals, a tie going to the even neighbour;
  \<open>decimal\<close> writes a natural number in decimal digits.\<close>

definition digit_char :: "nat \<Rightarrow> char" where
  "digit_char d = ''0123456789'' ! d"

function decimal :: "int \<Rightarrow> string" where
  "decimal n =
     (if n < 10 then [digit_char (nat n)]
      else decimal (n div 10) @ [digit_char (nat (n mod 10))])"
  by pat_completeness auto
termination
  by (relation "measure nat") auto

declare decimal.simps [simp del]

definition format_2f :: "rat \<Rightarrow> string" where
  "format_2f q =
     (let n = round_half_even (\<bar>q\<bar> * 100)
      in (if q < 0 then ''-'' else []) @ decimal (n div 100) @ ''.''
           @ [digit_char (nat (n mod 100 div 10)), digit_char (nat (n mod 10))])"

fun join :: "string \<Rightarrow> string list \<Rightarrow> string" where
  "join sep [] = []"
| "join sep [x] = x"
| "join sep (x # y # ys) = x @ sep @ join sep (y # ys)"

text \<open>The property \<^verbatim>\<open>sorted_op_report\<close>: the lines joined by a newline.\<close>

definition report_line :: "(rat \<Rightarrow> string) \<Rightarrow> string \<Rightarrow> rat \<Rightarrow> rat \<Rightarrow> string" where
  "report_line str_float t c d =
     ''Node '' @ t @ '' has '' @ str_float c @ '' instances and total duration ''
       @ str_float d @ '' ms''"

definition sorted_op_report :: "(rat \<Rightarrow> string) \<Rightarrow> store \<Rightarrow> ModelProfile \<Rightarrow> error + string" where
  "sorted_op_report str_float h self =
     ebind (py_sorted_reverse (\<lambda>r. ProfileEntry_total_duration (h r) 1) (op_profiles self))
       (\<lambda>sorted_op_profiles.
     ebind (collect (\<lambda>r.
              ebind (ProfileEntry_total_count (h r) (iteration self)) (\<lambda>c.
              ebind (ProfileEntry_total_duration (h r) (iteration self)) (\<lambda>d.
              Inr (report_line str_float (op_type (h r)) c d))))
            sorted_op_profiles)
       (\<lambda>lines. Inr (join [CHR 0x0A] lines)))"

section \<open>tabulate_diff\<close>

text \<open>
  A row of the table is a dict from column header to cell, in insertion order. The two
  count headers, and the two duration headers, are the same key when both reports carry
  the same compiler name; a dict literal then keeps the later value at the earlier position.
\<close>

datatype cell = Str string | Num rat

type_synonym row = "(string \<times> cell) list"

definition dict_literal :: "('k \<times> 'v) list \<Rightarrow> ('k \<times> 'v) list" where
  "dict_literal kvs = foldl (\<lambda>d kv. AList.update (fst kv) (snd kv) d) [] kvs"

definition str_opt :: "string option \<Rightarrow> string" where
  "str_opt n = (case n of None \<Rightarrow> ''None'' | Some s \<Rightarrow> s)"

definition diff :: "rat \<Rightarrow> rat \<Rightarrow> rat" where
  "diff base_perf comp_perf = fsub comp_perf base_perf"

definition diff_percent :: "rat \<Rightarrow> rat \<Rightarrow> string" where
  "diff_percent base_perf comp_perf =
     (if base_perf \<noteq> 0 \<and> comp_perf \<noteq> 0
      then format_2f (fmul (fdiv (fsub comp_perf base_perf) base_perf) 100) @ ''%''
      else ''N/A'')"

definition construct_tabulate_dict ::
  "string option \<Rightarrow> string option \<Rightarrow> string \<Rightarrow> rat \<Rightarrow> rat \<Rightarrow> rat \<Rightarrow> rat \<Rightarrow> row" where
  "construct_tabulate_dict base_compiler comp_compiler t base_count comp_count base_perf comp_perf =
     dict_literal
       [(''OpType'', Str t),
        (''Diff'', Num (diff base_perf comp_perf)),
        (''Diff%'', Str (diff_percent base_perf comp_perf)),
        (str_opt base_compiler @ '' count'', Num base_count),
        (str_opt comp_compiler @ '' count'', Num comp_count),
        (str_opt base_compiler @ '' perf (ms)'', Num base_perf),
        (str_opt comp_compiler @ '' perf (ms)'', Num comp_perf)]"

text \<open>The subscript \<^verbatim>\<open>x["Diff"]\<close> of the sort key.\<close>

definition diff_key :: "row \<Rightarrow> error + rat" where
  "diff_key x =
     (case map_of x ''Diff'' of
        None \<Rightarrow> Inl KeyError
      | Some (Str s) \<Rightarrow> Inl TypeError
      | Some (Num q) \<Rightarrow> Inr q)"

text \<open>
  The labels of the rows are \<^verbatim>\<open>set(base.keys()) | set(comp.keys())\<close>. The order in
  which Python iterates over a set of strings follows their hashes, which the interpreter
  salts per process: \<open>set_order\<close> stands for that order, as a rearrangement of the
  elements of the union.
\<close>

definition label_union :: "ModelProfile \<Rightarrow> ModelProfile \<Rightarrow> string list" where
  "label_union base_report comp_report =
     remdups (map fst (op_profiles_dict base_report) @ map fst (op_profiles_dict comp_report))"

definition op_row :: "store \<Rightarrow> ModelProfile \<Rightarrow> ModelProfile \<Rightarrow> string \<Rightarrow> error + row" where
  "op_row h base_report comp_report t =
     ebind (op_count h base_report t) (\<lambda>bc.
     ebind (op_count h comp_report t) (\<lambda>cc.
     ebind (op_duration h base_report t) (\<lambda>bd.
     ebind (op_duration h comp_report t) (\<lambda>cd.
     Inr (construct_tabulate_dict (compiler_name base_report) (compiler_name comp_report)
            t (of_int bc) (of_int cc) bd cd)))))"

definition total_row :: "store \<Rightarrow> ModelProfile \<Rightarrow> ModelProfile \<Rightarrow> error + row" where
  "total_row h base_report comp_report =
     ebind (total_op_count h base_report) (\<lambda>bc.
     ebind (total_op_count h comp_report) (\<lambda>cc.
     ebind (ModelProfile_total_duration h base_report) (\<lambda>bd.
     ebind (ModelProfile_total_duration h comp_report) (\<lambda>cd.
     Inr (construct_tabulate_dict (compiler_name base_report) (compiler_name comp_report)
            ''Total'' bc cc bd cd)))))"

type_synonym row_lambda =
  "string \<times> (store \<Rightarrow> ModelProfile \<Rightarrow> error + rat) \<times> (store \<Rightarrow> ModelProfile \<Rightarrow> error + rat)"

definition additional_row ::
  "store \<Rightarrow> ModelProfile \<Rightarrow> ModelProfile \<Rightarrow> row_lambda \<Rightarrow> error + row" where
  "additional_row h base_report comp_report l =
     (case l of (name, count_lambda, duration_lambda) \<Rightarrow>
        ebind (count_lambda h base_report) (\<lambda>bc.
        ebind (count_lambda h comp_report) (\<lambda>cc.
        ebind (duration_lambda h base_report) (\<lambda>bd.
        ebind (duration_lambda h comp_report) (\<lambda>cd.
        Inr (construct_tabulate_dict (compiler_name base_report) (compiler_name comp_report)
               name bc cc bd cd))))))"

text \<open>The list \<^verbatim>\<open>tabulate_data\<close> that \<^verbatim>\<open>tabulate_diff\<close> builds.\<close>

definition tabulate_data ::
  "(string list \<Rightarrow> string list) \<Rightarrow> store \<Rightarrow> ModelProfile \<Rightarrow> ModelProfile \<Rightarrow> row_lambda list
     \<Rightarrow> error + row list" where
  "tabulate_data set_order h base_report comp_report additional_row_lambdas =
     ebind (collect (op_row h base_report comp_report)
              [t \<leftarrow> set_order (label_union base_report comp_report).
                 \<not> startswith t ''Batch-'']) (\<lambda>op_rows.
     ebind (py_sorted_reverse diff_key op_rows) (\<lambda>sorted_rows.
     ebind (total_row h base_report comp_report) (\<lambda>total_r.
     ebind (collect (additional_row h base_report comp_report) additional_row_lambdas)
       (\<lambda>more. Inr (sorted_rows @ [total_r] @ more)))))"

text \<open>\<^verbatim>\<open>tabulate_diff\<close> hands the rows to the table library, the parameter \<open>render\<close>.\<close>

definition tabulate_diff ::
  "(row list \<Rightarrow> string) \<Rightarrow> (string list \<Rightarrow> string list) \<Rightarrow> store \<Rightarrow> ModelProfile
     \<Rightarrow> ModelProfile \<Rightarrow> row_lambda list \<Rightarrow> error + string" where
  "tabulate_diff render set_order h base_report comp_report additional_row_lambdas =
     ebind (tabulate_data set_order h base_report comp_report additional_row_lambdas)
       (\<lambda>rows. Inr (render rows))"

section \<open>analyze_profile\<close>

text \<open>
  Reading the file and decoding its JSON are outside the model: \<^verbatim>\<open>analyze_profile\<close>
  starts from the decoded list of events. A field is \<open>None\<close> when the key is missing
  (for \<open>op_name\<close>: when \<^verbatim>\<open>args\<close> or \<^verbatim>\<open>op_name\<close> is). The report is a dict of
  \<^verbatim>\<open>ProfileEntry\<close> values; nothing else refers to them. What the function prints is
  returned as the list of lines; an exception loses the lines printed before it.
\<close>

record trace_event =
  cat :: "string option"
  dur :: "int option"
  name :: "string option"
  op_name :: "string option"

definition setdefault :: "('k \<times> 'v) list \<Rightarrow> 'k \<Rightarrow> 'v \<Rightarrow> ('k \<times> 'v) list" where
  "setdefault d k v = (case map_of d k of None \<Rightarrow> AList.update k v d | Some _ \<Rightarrow> d)"

definition append_entry ::
  "(string \<times> ProfileEntry) list \<Rightarrow> string \<Rightarrow> string \<times> int
     \<Rightarrow> error + (string \<times> ProfileEntry) list" where
  "append_entry report t s =
     (case map_of report t of
        None \<Rightarrow> Inl KeyError
      | Some e \<Rightarrow> Inr (AList.update t (e\<lparr>entries := entries e @ [s]\<rparr>) report))"

fun node_report ::
  "trace_event list \<Rightarrow> (string \<times> ProfileEntry) list \<Rightarrow> error + (string \<times> ProfileEntry) list" where
  "node_report [] report = Inr report"
| "node_report (entry # rest) report =
     (if cat entry \<noteq> Some ''Node'' \<or> dur entry = None \<or> dur entry = Some 0
      then node_report rest report
      else (case op_name entry of
              None \<Rightarrow> Inl KeyError
            | Some t \<Rightarrow>
                (case name entry of
                   None \<Rightarrow> Inl KeyError
                 | Some n \<Rightarrow>
                     (case dur entry of
                        None \<Rightarrow> Inl KeyError
                      | Some d \<Rightarrow>
                          ebind (append_entry
                                   (setdefault report t \<lparr>op_type = t, entries = []\<rparr>) t (n, d))
                            (node_report rest)))))"

text \<open>
  The sort key of \<^verbatim>\<open>analyze_profile\<close> is \<^verbatim>\<open>lambda x: x.total_duration\<close>: the bound
  method, not the number it returns. Python does not order bound methods, so the first
  comparison of two keys raises \<^verbatim>\<open>TypeError\<close>; a list of fewer than two elements is
  sorted without any comparison.
\<close>

definition sorted_by_unordered_key :: "'a list \<Rightarrow> error + 'a list" where
  "sorted_by_unordered_key xs = (if length xs < 2 then Inr xs else Inl TypeError)"

definition total_line :: "(rat \<Rightarrow> string) \<Rightarrow> bool \<Rightarrow> rat \<Rightarrow> string" where
  "total_line str_float no_terms x =
     ''Total duration: '' @ (if no_terms then ''0'' else str_float x) @ '' ms''"

definition analyze_profile :: "(rat \<Rightarrow> string) \<Rightarrow> trace_event list \<Rightarrow> error + string list" where
  "analyze_profile str_float profile_json =
     ebind (node_report profile_json []) (\<lambda>report.
     ebind (sorted_by_unordered_key (map snd report)) (\<lambda>sorted_node_report.
     ebind (collect (\<lambda>nr.
              ebind (ProfileEntry_total_count nr 1) (\<lambda>c.
              ebind (ProfileEntry_total_duration nr 1) (\<lambda>d.
              Inr (report_line str_float (op_type nr) c d))))
            sorted_node_report) (\<lambda>lines.
     ebind (sum_gen (\<lambda>nr. ProfileEntry_total_duration nr 1)
              sorted_node_report 0) (\<lambda>x.
     Inr (lines @ [total_line str_float (sorted_node_report = []) x])))))"

section \<open>analyze_profile_nvtx\<close>

text \<open>
  A decoded line is \<open>None\<close> when it has no \<^verbatim>\<open>NvtxEvent\<close>; a field of the event is
  \<open>None\<close> when its key is missing, and a timestamp is the integer that \<^verbatim>\<open>int(...)\<close>
  reads from it. The accumulators are built as values and enter the store, at the fresh
  references from \<open>free\<close> on, when the \<^verbatim>\<open>ModelProfile\<close> is constructed over them.
\<close>

record nvtx_event =
  Text :: "string option"
  Timestamp :: "int option"
  EndTimestamp :: "int option"

fun nvtx_report ::
  "nvtx_event option list \<Rightarrow> (string \<times> ProfileEntry) list
     \<Rightarrow> error + (string \<times> ProfileEntry) list" where
  "nvtx_report [] report = Inr report"
| "nvtx_report (None # rest) report = nvtx_report rest report"
| "nvtx_report (Some event # rest) report =
     (case Text event of
        None \<Rightarrow> Inl KeyError
      | Some text \<Rightarrow>
          (case EndTimestamp event of
             None \<Rightarrow> Inl KeyError
           | Some e \<Rightarrow>
               (case Timestamp event of
                  None \<Rightarrow> Inl KeyError
                | Some s \<Rightarrow>
                    (let t = takeWhile (\<lambda>c. c \<noteq> CHR ''.'') text
                     in ebind (append_entry
                                 (setdefault report t \<lparr>op_type = t, entries = []\<rparr>)
                                 t (text, e - s))
                          (nvtx_report rest)))))"

definition allocate :: "store \<Rightarrow> ref \<Rightarrow> ProfileEntry list \<Rightarrow> store" where
  "allocate h free es = fold (\<lambda>(r, e) h. h(r := e)) (zip [free ..< free + length es] es) h"

definition analyze_profile_nvtx ::
  "(rat \<Rightarrow> string) \<Rightarrow> store \<Rightarrow> ref \<Rightarrow> nvtx_event option list \<Rightarrow> int \<Rightarrow> string option
     \<Rightarrow> string option \<Rightarrow> error + (store \<times> ModelProfile \<times> string list)" where
  "analyze_profile_nvtx str_float h free lines it mn cn =
     ebind (nvtx_report lines []) (\<lambda>report.
     ebind (ModelProfile_init (allocate h free (map snd report))
              [free ..< free + length report] it mn cn True) (\<lambda>(h', model_profile).
     ebind (sorted_op_report str_float h' model_profile) (\<lambda>rep.
     ebind (ModelProfile_total_duration h' model_profile) (\<lambda>x.
     Inr (h', model_profile,
          [rep, total_line str_float
                  ([r \<leftarrow> op_profiles model_profile.
                      \<not> startswith (op_type (h' r)) ''Batch-''] = []) x])))))"

section \<open>main\<close>

text \<open>
  The command line is parsed by \<^verbatim>\<open>argparse\<close>. How that library reads the words of a
  command line (exact and abbreviated option strings, \<^verbatim>\<open>--option=value\<close>, which word
  is a value) is not written in this script: it is the parameter \<open>scan\<close>, which gives
  the occurrences that the library finds, each the position of a declared argument with
  the text of its value, in the order of the command line, or \<open>None\<close> when the library
  exits while reading (an unknown option, a missing value, \<^verbatim>\<open>--help\<close>). The builtin
  \<^verbatim>\<open>int\<close> that \<^verbatim>\<open>type=int\<close> names is the parameter \<open>to_int\<close>. The model keeps what
  \<^verbatim>\<open>main\<close> declares: the option strings, \<^verbatim>\<open>required\<close>, \<^verbatim>\<open>choices\<close> and
  \<^verbatim>\<open>type\<close>. A value that \<^verbatim>\<open>int\<close> refuses or that is not among the choices, and a
  required argument without an occurrence, make the parser exit: \<open>SystemExit\<close>. An
  argument without an occurrence is \<^verbatim>\<open>None\<close> in the namespace. \<^verbatim>\<open>main\<close> returns the
  analysis it starts.
\<close>

datatype arg_type = StrArg | IntArg

datatype arg_value = StrVal string | IntVal int | NoneVal

record argument =
  option_strings :: "string list"
  required :: bool
  choices :: "string list option"
  arg_ty :: arg_type

type_synonym scanner = "argument list \<Rightarrow> string list \<Rightarrow> (nat \<times> string) list option"

definition convert :: "(string \<Rightarrow> int option) \<Rightarrow> argument \<Rightarrow> string \<Rightarrow> error + arg_value" where
  "convert to_int a v =
     (case arg_ty a of
        IntArg \<Rightarrow> (case to_int v of None \<Rightarrow> Inl SystemExit | Some n \<Rightarrow> Inr (IntVal n))
      | StrArg \<Rightarrow>
          (case choices a of
             None \<Rightarrow> Inr (StrVal v)
           | Some cs \<Rightarrow> if v \<in> set cs then Inr (StrVal v) else Inl SystemExit))"

fun store_values ::
  "(string \<Rightarrow> int option) \<Rightarrow> argument list \<Rightarrow> (nat \<times> string) list \<Rightarrow> (nat \<times> arg_value) list
     \<Rightarrow> error + (nat \<times> arg_value) list" where
  "store_values to_int parser [] ns = Inr ns"
| "store_values to_int parser ((i, v) # rest) ns =
     (if i < length parser
      then ebind (convert to_int (parser ! i) v)
             (\<lambda>x. store_values to_int parser rest (AList.update i x ns))
      else Inl SystemExit)"

definition parse_args ::
  "scanner \<Rightarrow> (string \<Rightarrow> int option) \<Rightarrow> argument list \<Rightarrow> string list
     \<Rightarrow> error + (nat \<times> arg_value) list" where
  "parse_args scan to_int parser argv =
     (case scan parser argv of
        None \<Rightarrow> Inl SystemExit
      | Some found \<Rightarrow>
          ebind (store_values to_int parser found []) (\<lambda>ns.
            if \<forall>i \<in> set [0 ..< length parser]. required (parser ! i) \<longrightarrow> map_of ns i \<noteq> None
            then Inr ns else Inl SystemExit))"

definition namespace_get :: "(nat \<times> arg_value) list \<Rightarrow> nat \<Rightarrow> arg_value" where
  "namespace_get ns i = (case map_of ns i of None \<Rightarrow> NoneVal | Some x \<Rightarrow> x)"

definition main_parser :: "argument list" where
  "main_parser =
     [\<lparr>option_strings = [''--profile-path'', ''--profile_path''], required = True,
        choices = None, arg_ty = StrArg\<rparr>,
      \<lparr>option_strings = [''--type''], required = True,
        choices = Some [''ortcpu'', ''nvtx''], arg_ty = StrArg\<rparr>,
      \<lparr>option_strings = [''--iteration''], required = True,
        choices = None, arg_ty = IntArg\<rparr>]"

datatype analysis = Analyze_profile arg_value | Analyze_profile_nvtx arg_value arg_value

definition main :: "scanner \<Rightarrow> (string \<Rightarrow> int option) \<Rightarrow> string list \<Rightarrow> error + analysis" where
  "main scan to_int argv =
     ebind (parse_args scan to_int main_parser argv) (\<lambda>args.
       let profile_path = namespace_get args 0;
           ty = namespace_get args 1;
           it = namespace_get args 2
       in if ty = StrVal ''ortcpu'' then Inr (Analyze_profile profile_path)
          else if ty = StrVal ''nvtx'' then Inr (Analyze_profile_nvtx profile_path it)
          else Inl ValueError)"

text \<open>
  For the examples: a scanner that reads exact option strings, each followed by one word
  that does not start with a dash, and \<^verbatim>\<open>int\<close> on a string of ASCII characters
  (whitespace around an optional sign and decimal digits, with single underscores between
  digits). On the command lines that this scanner reads, \<^verbatim>\<open>argparse\<close> finds the same
  occurrences; the scanner refuses all others, of which \<^verbatim>\<open>argparse\<close> reads some.
\<close>

fun scan_exact :: scanner where
  "scan_exact parser [] = Some []"
| "scan_exact parser [flag] = None"
| "scan_exact parser (flag # v # rest) =
     (case find (\<lambda>i. flag \<in> set (option_strings (parser ! i))) [0 ..< length parser] of
        None \<Rightarrow> None
      | Some i \<Rightarrow>
          if v \<noteq> [] \<and> hd v = CHR ''-'' then None
          else map_option (\<lambda>found. (i, v) # found) (scan_exact parser rest))"

definition is_space :: "char \<Rightarrow> bool" where
  "is_space c = (c \<in> set [CHR 0x09, CHR 0x0A, CHR 0x0B, CHR 0x0C, CHR 0x0D, CHR 0x20])"

definition strip :: "string \<Rightarrow> string" where
  "strip s = rev (dropWhile is_space (rev (dropWhile is_space s)))"

fun digits_value :: "string \<Rightarrow> bool \<Rightarrow> int \<Rightarrow> int option" where
  "digits_value [] after_digit n = (if after_digit then Some n else None)"
| "digits_value (c # cs) after_digit n =
     (if c \<in> set ''0123456789'' then digits_value cs True (10 * n + (of_char c - 48))
      else if c = CHR ''_'' \<and> after_digit then digits_value cs False n
      else None)"

definition int_of_string :: "string \<Rightarrow> int option" where
  "int_of_string s =
     (case strip s of
        [] \<Rightarrow> None
      | c # cs \<Rightarrow>
          if c = CHR ''-'' then map_option uminus (digits_value cs False 0)
          else if c = CHR ''+'' then digits_value cs False 0
          else digits_value (c # cs) False 0)"

section \<open>Notions used in the statements\<close>

text \<open>The tail that \<^verbatim>\<open>__post_init__\<close> keeps of one sample sequence, and the sort key of
  an accumulator: its duration in milliseconds at iteration 1.\<close>

definition warmup_tail :: "int \<Rightarrow> 'a list \<Rightarrow> 'a list" where
  "warmup_tail it es =
     slice_from es (int (length es) div (WARM_UP_ROUNDS + it) * WARM_UP_ROUNDS)"

definition duration_ms :: "ProfileEntry \<Rightarrow> rat" where
  "duration_ms e =
     fdiv (fdiv (round_double (of_int (sum_list (map snd (entries e))))) 1000) 1000"

text \<open>The labels of the per-operator rows, in the order in which their rows are built;
  the \<^verbatim>\<open>Diff\<close> cell of a row; the two readings of "sorted descending"; and what is
  known of the iteration order of a set: it lists the elements, each once.\<close>

definition row_labels ::
  "(string list \<Rightarrow> string list) \<Rightarrow> ModelProfile \<Rightarrow> ModelProfile \<Rightarrow> string list" where
  "row_labels set_order base_report comp_report =
     [t \<leftarrow> set_order (label_union base_report comp_report). \<not> startswith t ''Batch-'']"

definition Diff :: "row \<Rightarrow> rat" where
  "Diff x = (case diff_key x of Inr q \<Rightarrow> q | Inl e \<Rightarrow> 0)"

definition descending :: "row list \<Rightarrow> bool" where
  "descending rows = sorted_wrt (\<lambda>x y. Diff y \<le> Diff x) rows"

definition strictly_descending :: "row list \<Rightarrow> bool" where
  "strictly_descending rows = sorted_wrt (\<lambda>x y. Diff y < Diff x) rows"

definition rearranges :: "(string list \<Rightarrow> string list) \<Rightarrow> string list \<Rightarrow> bool" where
  "rearranges set_order xs = (mset (set_order xs) = mset xs)"

section \<open>Example data\<close>

text \<open>A store with a \<^verbatim>\<open>MatMul\<close> accumulator at reference 0, an \<^verbatim>\<open>Add\<close> accumulator
  at reference 1 and a synthetic \<^verbatim>\<open>Batch-0\<close> accumulator everywhere else, and the
  aggregate that the constructor builds over the references 0, 1 and 2 with iteration 2
  and no trimming.\<close>

definition sample_store :: store where
  "sample_store =
     (\<lambda>r. if r = 0 then
            \<lparr>op_type = ''MatMul'',
             entries = [(''MatMul.0'', 4000000), (''MatMul.1'', 2000000),
                        (''MatMul.2'', 2000000), (''MatMul.3'', 2000000)]\<rparr>
          else if r = 1 then
            \<lparr>op_type = ''Add'', entries = [(''Add.0'', 1000000), (''Add.1'', 1000000)]\<rparr>
          else \<lparr>op_type = ''Batch-0'', entries = [(''Batch-0.0'', 9000000)]\<rparr>)"

definition sample_profile :: ModelProfile where
  "sample_profile =
     \<lparr>op_profiles = [0, 1, 2], iteration = 2, model_name = None, compiler_name = None,
      with_warmup = False,
      op_profiles_dict = [(''MatMul'', 0), (''Batch-0'', 2), (''Add'', 1)]\<rparr>"

text \<open>Two runs to compare: the base run has an \<^verbatim>\<open>Add\<close> and a \<^verbatim>\<open>Mul\<close>
  accumulator of one millisecond each, the comparison run has neither.\<close>

definition tie_store :: store where
  "tie_store =
     (\<lambda>r. if r = 0 then \<lparr>op_type = ''Add'', entries = [(''Add.0'', 1000000)]\<rparr>
          else \<lparr>op_type = ''Mul'', entries = [(''Mul.0'', 1000000)]\<rparr>)"

definition tie_base :: ModelProfile where
  "tie_base =
     \<lparr>op_profiles = [0, 1], iteration = 1, model_name = None, compiler_name = Some ''ort'',
      with_warmup = False, op_profiles_dict = [(''Add'', 0), (''Mul'', 1)]\<rparr>"

definition tie_comp :: ModelProfile where
  "tie_comp =
     \<lparr>op_profiles = [], iteration = 1, model_name = None, compiler_name = Some ''torch'',
      with_warmup = False, op_profiles_dict = []\<rparr>"

definition tie_row :: "string \<Rightarrow> rat \<Rightarrow> rat \<Rightarrow> row" where
  "tie_row t n d =
     [(''OpType'', Str t), (''Diff'', Num (- d)), (''Diff%'', Str ''N/A''),
      (''ort count'', Num n), (''torch count'', Num 0),
      (''ort perf (ms)'', Num d), (''torch perf (ms)'', Num 0)]"

text \<open>Two decoded Node traces: two events of one operator type, and two events of two
  operator types.\<close>

definition matmul_trace :: "trace_event list" where
  "matmul_trace =
     [\<lparr>cat = Some ''Node'', dur = Some 1000000, name = Some ''MatMul_0'',
        op_name = Some ''MatMul''\<rparr>,
      \<lparr>cat = Some ''Node'', dur = Some 2000000, name = Some ''MatMul_1'',
        op_name = Some ''MatMul''\<rparr>]"

definition two_types_trace :: "trace_event list" where
  "two_types_trace =
     [\<lparr>cat = Some ''Node'', dur = Some 1000000, name = Some ''MatMul_0'',
        op_name = Some ''MatMul''\<rparr>,
      \<lparr>cat = Some ''Node'', dur = Some 2000000, name = Some ''Add_0'',
        op_name = Some ''Add''\<rparr>]"

text \<open>Five decoded lines of an event stream: four \<^verbatim>\<open>Conv.run\<close> events of five
  nanoseconds each, and one line without an \<^verbatim>\<open>NvtxEvent\<close>.\<close>

definition conv_event :: "int \<Rightarrow> nvtx_event option" where
  "conv_event start =
     Some \<lparr>Text = Some ''Conv.run'', Timestamp = Some start, EndTimestamp = Some (start + 5)\<rparr>"

definition conv_lines :: "nvtx_event option list" where
  "conv_lines = [conv_event 0, conv_event 10, None, conv_event 20, conv_event 30]"



definition near_store :: store where
  "near_store =
     (\<lambda>r. if r = 0 then \<lparr>op_type = ''Add'', entries = [(''Add.0'', 2000000)]\<rparr>
          else if r = 1 then \<lparr>op_type = ''Add'', entries = [(''Add.0'', 2000300)]\<rparr>
          else if r = 2 then \<lparr>op_type = ''Mul'', entries = [(''Mul.0'', 1000000)]\<rparr>
          else \<lparr>op_type = ''Mul'', entries = [(''Mul.0'', 1000250)]\<rparr>)"

definition near_base :: ModelProfile where
  "near_base =
     \<lparr>op_profiles = [0, 2], iteration = 1, model_name = None, compiler_name = Some ''ort'',
      with_warmup = False, op_profiles_dict = [(''Add'', 0), (''Mul'', 2)]\<rparr>"

definition near_comp :: ModelProfile where
  "near_comp =
     \<lparr>op_profiles = [1, 3], iteration = 1, model_name = None, compiler_name = Some ''torch'',
      with_warmup = False, op_profiles_dict = [(''Add'', 1), (''Mul'', 3)]\<rparr>"

section \<open>Auxiliary lemmas\<close>

lemma ebind_Inr [simp]: "ebind (Inr x) f = f x"
  by (simp add: ebind_def)

lemma ebind_Inl [simp]: "ebind (Inl e) f = Inl e"
  by (simp add: ebind_def)

lemma ebind_eq_Inr: "ebind m f = Inr y \<longleftrightarrow> (\<exists>x. m = Inr x \<and> f x = Inr y)"
  by (cases m) simp_all

lemma collect_pure: "(\<And>x. x \<in> set xs \<Longrightarrow> f x = Inr (g x)) \<Longrightarrow> collect f xs = Inr (map g xs)"
  by (induction xs) simp_all

lemma collect_Inr_D: "collect f xs = Inr ys \<Longrightarrow> list_all2 (\<lambda>x y. f x = Inr y) xs ys"
  by (induction xs arbitrary: ys) (auto split: sum.splits)

lemma collect_Inr_I: "list_all2 (\<lambda>x y. f x = Inr y) xs ys \<Longrightarrow> collect f xs = Inr ys"
  by (induction rule: list_all2_induct) simp_all

lemma collect_eq_Inr: "collect f xs = Inr ys \<longleftrightarrow> list_all2 (\<lambda>x y. f x = Inr y) xs ys"
  using collect_Inr_D collect_Inr_I by blast

lemma insort_key_zip:
  "map snd (insort_key fst (f x, x) (zip (map f xs) xs)) = insort_key f x xs"
  by (induction xs) simp_all

lemma insort_key_zip_eq:
  "insort_key fst (f x, x) (zip (map f xs) xs) = zip (map f (insort_key f x xs)) (insort_key f x xs)"
  by (induction xs) simp_all

lemma sort_key_zip_eq:
  "sort_key fst (zip (map f xs) xs) = zip (map f (sort_key f xs)) (sort_key f xs)"
  by (induction xs) (simp_all add: insort_key_zip_eq)

lemma sorted_reverse_zip:
  "map snd (sorted_reverse fst (zip (map f xs) xs)) = sorted_reverse f xs"
proof -
  have "rev (zip (map f xs) xs) = zip (map f (rev xs)) (rev xs)"
    by (simp add: zip_rev [symmetric] rev_map)
  then have "sort_key fst (rev (zip (map f xs) xs)) =
      zip (map f (sort_key f (rev xs))) (sort_key f (rev xs))"
    by (simp only: sort_key_zip_eq)
  then show ?thesis
    by (simp add: sorted_reverse_def rev_map [symmetric])
qed

lemma py_sorted_reverse_pure:
  assumes "\<And>x. x \<in> set xs \<Longrightarrow> key x = Inr (f x)"
  shows "py_sorted_reverse key xs = Inr (sorted_reverse f xs)"
  using collect_pure [of xs key f] assms
  by (simp add: py_sorted_reverse_def sorted_reverse_zip)

lemma mset_sorted_reverse [simp]: "mset (sorted_reverse f xs) = mset xs"
  by (simp add: sorted_reverse_def)

lemma set_sorted_reverse [simp]: "set (sorted_reverse f xs) = set xs"
  by (simp add: sorted_reverse_def)

lemma length_sorted_reverse [simp]: "length (sorted_reverse f xs) = length xs"
  by (simp add: sorted_reverse_def)

lemma sorted_reverse_descending:
  "sorted_wrt (\<lambda>a b. f b \<le> f a) (sorted_reverse f xs)"
proof -
  have "sorted (map f (sort_key f (rev xs)))" by simp
  then have "sorted_wrt (\<lambda>a b. f a \<le> f b) (sort_key f (rev xs))"
    by (simp add: sorted_map)
  then show ?thesis
    by (simp add: sorted_reverse_def sorted_wrt_rev)
qed

lemma total_duration_1: "ProfileEntry_total_duration e 1 = Inr (duration_ms e)"
  by (simp add: ProfileEntry_total_duration_def true_div_def duration_ms_def)

lemma ModelProfile_init_eq_Inr:
  "ModelProfile_init h ops it mn cn w = Inr (h', mp) \<longleftrightarrow>
     (if w then discard_warmup it ops h else Inr h) = Inr h' \<and>
     mp = \<lparr>op_profiles = ops, iteration = it, model_name = mn, compiler_name = cn,
           with_warmup = w,
           op_profiles_dict =
             dict_by_op_type h' (sorted_reverse (\<lambda>r. duration_ms (h' r)) ops)\<rparr>"
  by (auto simp: ModelProfile_init_def ebind_eq_Inr total_duration_1
        py_sorted_reverse_pure [where f = "\<lambda>r. duration_ms (h' r)"])

lemma keys_foldl_update:
  "fst ` set (foldl (\<lambda>d r. AList.update (k r) r d) d0 rs) = fst ` set d0 \<union> k ` set rs"
  by (induction rs arbitrary: d0) (auto simp: dom_update)

lemma keys_dict_by_op_type:
  "fst ` set (dict_by_op_type h rs) = (\<lambda>r. op_type (h r)) ` set rs"
  by (simp add: dict_by_op_type_def keys_foldl_update)

lemma values_foldl_update:
  "snd ` set (foldl (\<lambda>d r. AList.update (k r) r d) d0 rs) \<subseteq> snd ` set d0 \<union> set rs"
proof (induction rs arbitrary: d0)
  case Nil
  then show ?case by simp
next
  case (Cons a rs)
  have "snd ` set (AList.update (k a) a d0) \<subseteq> insert a (snd ` set d0)"
    by (induction d0) auto
  with Cons [of "AList.update (k a) a d0"] show ?case by auto
qed

lemma map_of_foldl_update:
  "map_of (foldl (\<lambda>d r. AList.update (k r) r d) d0 rs) t = Some r \<Longrightarrow>
   (r \<in> set rs \<and> k r = t) \<or> map_of d0 t = Some r"
proof (induction rs arbitrary: d0)
  case Nil
  then show ?case by simp
next
  case (Cons a rs)
  from Cons.IH [OF Cons.prems [simplified]] show ?case
    by (auto simp: update_conv' split: if_splits)
qed

lemma map_of_dict_by_op_type:
  "map_of (dict_by_op_type h rs) t = Some r \<Longrightarrow> r \<in> set rs \<and> op_type (h r) = t"
  using map_of_foldl_update [of "\<lambda>r. op_type (h r)" "[]" rs t r]
  by (simp add: dict_by_op_type_def)

lemma discard_warmup_effect:
  assumes "WARM_UP_ROUNDS + it \<noteq> 0"
  shows "discard_warmup it rs h =
     Inr (\<lambda>r. (h r)\<lparr>entries := (warmup_tail it ^^ count_list rs r) (entries (h r))\<rparr>)"
proof (induction rs arbitrary: h)
  case Nil
  then show ?case by simp
next
  case (Cons a rs)
  let ?h1 = "h(a := (h a)\<lparr>entries := warmup_tail it (entries (h a))\<rparr>)"
  have "discard_warmup it (a # rs) h = discard_warmup it rs ?h1"
    using assms by (simp add: floor_div_def warmup_tail_def)
  also have "\<dots> = Inr (\<lambda>r. (?h1 r)\<lparr>entries :=
      (warmup_tail it ^^ count_list rs r) (entries (?h1 r))\<rparr>)"
    by (rule Cons.IH)
  also have "(\<lambda>r. (?h1 r)\<lparr>entries := (warmup_tail it ^^ count_list rs r) (entries (?h1 r))\<rparr>) =
      (\<lambda>r. (h r)\<lparr>entries := (warmup_tail it ^^ count_list (a # rs) r) (entries (h r))\<rparr>)"
    by (rule ext) (simp add: funpow_swap1)
  finally show ?case .
qed

lemma discard_warmup_empty: "discard_warmup it [] h = Inr h"
  by simp

lemma count_list_distinct: "distinct xs \<Longrightarrow> x \<in> set xs \<Longrightarrow> count_list xs x = 1"
  by (induction xs) (auto simp: count_list_0_iff)

lemma warmup_tail_nonneg:
  assumes "0 \<le> it"
  shows "warmup_tail it es = drop (length es div nat (WARM_UP_ROUNDS + it)) es"
proof -
  have "int (length es) div (1 + it) = int (length es div nat (1 + it))"
    using assms by (simp add: zdiv_int)
  moreover have "length es div nat (1 + it) \<le> length es"
    by (rule div_le_dividend)
  ultimately show ?thesis
    by (simp add: warmup_tail_def slice_from_def WARM_UP_ROUNDS_def Let_def min_def)
qed



section \<open>The constructor: warmup trimming\<close>

text \<open>
  Claim C1. Constructing a \<^verbatim>\<open>ModelProfile\<close> with trimming enabled, over distinct
  accumulators and with an iteration count \<open>I \<ge> 0\<close>, succeeds, and for every
  accumulator with \<open>L\<close> samples it discards exactly the first
  \<open>W * floor (L / (W + I))\<close> samples, \<open>W = 1\<close>: the retained sequence is the tail of
  the original one, in the original order, of length \<open>L - floor (L / (W + I))\<close>, and the
  discarded prefix followed by the retained tail is the original sequence.
\<close>

theorem warmup_trim:
  assumes "0 \<le> it" and "distinct ops"
  shows "\<exists>h' mp. ModelProfile_init h ops it mn cn True = Inr (h', mp) \<and>
           (\<forall>r \<in> set ops.
              let L = length (entries (h r)); block = L div nat (WARM_UP_ROUNDS + it) in
                entries (h' r) = drop (nat WARM_UP_ROUNDS * block) (entries (h r)) \<and>
                take (nat WARM_UP_ROUNDS * block) (entries (h r)) @ entries (h' r)
                  = entries (h r) \<and>
                length (entries (h' r)) = L - block)"
proof -
  from assms(1) have ne: "WARM_UP_ROUNDS + it \<noteq> 0"
    by (simp add: WARM_UP_ROUNDS_def)
  define h' where
    "h' = (\<lambda>r. (h r)\<lparr>entries := (warmup_tail it ^^ count_list ops r) (entries (h r))\<rparr>)"
  have "discard_warmup it ops h = Inr h'"
    unfolding h'_def by (rule discard_warmup_effect [OF ne])
  then obtain mp where mp: "ModelProfile_init h ops it mn cn True = Inr (h', mp)"
    by (simp add: ModelProfile_init_eq_Inr)
  have "entries (h' r) =
      drop (length (entries (h r)) div nat (WARM_UP_ROUNDS + it)) (entries (h r))"
    if "r \<in> set ops" for r
    using that assms by (simp add: h'_def count_list_distinct warmup_tail_nonneg)
  then show ?thesis
    using mp by (simp add: Let_def WARM_UP_ROUNDS_def)
qed

theorem warmup_trim_witness:
  "\<exists>h' mp. ModelProfile_init sample_store [0, 1, 2] 1 None None True = Inr (h', mp) \<and>
     entries (h' 0) = [(''MatMul.2'', 2000000), (''MatMul.3'', 2000000)] \<and>
     entries (h' 1) = [(''Add.1'', 1000000)] \<and>
     entries (h' 2) = [(''Batch-0.0'', 9000000)]"
  using warmup_trim [of 1 "[0, 1, 2]" sample_store None None]
  by (simp add: sample_store_def WARM_UP_ROUNDS_def) blast

text \<open>
  Claim C10. Constructing a \<^verbatim>\<open>ModelProfile\<close> with trimming enabled (the divisor
  \<open>W + I\<close> not being zero) succeeds and mutates the store: the aggregate's list and its
  lookup hold the very references that were passed in, the object behind each reference
  has its sample sequence replaced by the trimmed tail (once per occurrence of the
  reference in the list, so exactly once when the references are distinct), no other
  field changes, and whoever reads an accumulator through a shared reference, such as
  another aggregate's \<^verbatim>\<open>op_duration\<close>, reads the trimmed sequence.
\<close>

theorem init_mutates_shared_accumulators:
  assumes "WARM_UP_ROUNDS + it \<noteq> 0"
  shows "\<exists>h' mp. ModelProfile_init h ops it mn cn True = Inr (h', mp) \<and>
           op_profiles mp = ops \<and>
           snd ` set (op_profiles_dict mp) \<subseteq> set ops \<and>
           (\<forall>r. h' r =
              (h r)\<lparr>entries := (warmup_tail it ^^ count_list ops r) (entries (h r))\<rparr>) \<and>
           (distinct ops \<longrightarrow>
              (\<forall>r \<in> set ops. h' r = (h r)\<lparr>entries := warmup_tail it (entries (h r))\<rparr>)) \<and>
           (\<forall>other t r. map_of (op_profiles_dict other) t = Some r \<longrightarrow>
              op_duration h' other t =
                ProfileEntry_total_duration
                  ((h r)\<lparr>entries := (warmup_tail it ^^ count_list ops r) (entries (h r))\<rparr>)
                  (iteration other))"
proof -
  define h' where
    "h' = (\<lambda>r. (h r)\<lparr>entries := (warmup_tail it ^^ count_list ops r) (entries (h r))\<rparr>)"
  have "discard_warmup it ops h = Inr h'"
    unfolding h'_def by (rule discard_warmup_effect [OF assms])
  then obtain mp where mp: "ModelProfile_init h ops it mn cn True = Inr (h', mp)"
    and ops: "op_profiles mp = ops"
    and dict: "op_profiles_dict mp =
      dict_by_op_type h' (sorted_reverse (\<lambda>r. duration_ms (h' r)) ops)"
    by (simp add: ModelProfile_init_eq_Inr)
  have "snd ` set (op_profiles_dict mp) \<subseteq> set ops"
    using values_foldl_update [of "\<lambda>r. op_type (h' r)" "[]"
        "sorted_reverse (\<lambda>r. duration_ms (h' r)) ops"]
    by (simp add: dict dict_by_op_type_def)
  moreover have "\<forall>r \<in> set ops. h' r = (h r)\<lparr>entries := warmup_tail it (entries (h r))\<rparr>"
    if "distinct ops"
    using that by (simp add: h'_def count_list_distinct)
  moreover have "op_duration h' other t = ProfileEntry_total_duration (h' r) (iteration other)"
    if "map_of (op_profiles_dict other) t = Some r" for other t r
    using that by (simp add: op_duration_def)
  ultimately show ?thesis
    using mp ops unfolding h'_def by blast
qed

lemma trimmed_duration:
  "ProfileEntry_total_duration
     \<lparr>op_type = ''MatMul'', entries = [(''MatMul.2'', 2000000), (''MatMul.3'', 2000000)]\<rparr> 2
   = Inr 2"
  by code_simp

theorem init_mutates_shared_accumulators_witness:
  "\<exists>h' mp. ModelProfile_init sample_store [0, 1] 1 None None True = Inr (h', mp) \<and>
     op_profiles mp = [0, 1] \<and>
     entries (h' 0) = [(''MatMul.2'', 2000000), (''MatMul.3'', 2000000)] \<and>
     entries (h' 1) = [(''Add.1'', 1000000)] \<and>
     h' 2 = sample_store 2 \<and>
     op_duration h' sample_profile ''MatMul'' = Inr 2"
proof -
  have ne: "WARM_UP_ROUNDS + 1 \<noteq> 0"
    by (simp add: WARM_UP_ROUNDS_def)
  from init_mutates_shared_accumulators [OF ne, of sample_store "[0, 1]" None None]
  obtain h' mp where
    "ModelProfile_init sample_store [0, 1] 1 None None True = Inr (h', mp)"
    "op_profiles mp = [0, 1]"
    "\<forall>r. h' r = (sample_store r)\<lparr>entries :=
        (warmup_tail 1 ^^ count_list [0, 1] r) (entries (sample_store r))\<rparr>"
    by blast
  moreover have "warmup_tail 1 (entries (sample_store 0)) =
      [(''MatMul.2'', 2000000), (''MatMul.3'', 2000000)]"
    "warmup_tail 1 (entries (sample_store 1)) = [(''Add.1'', 1000000)]"
    by (simp_all add: warmup_tail_def slice_from_def sample_store_def WARM_UP_ROUNDS_def)
  ultimately show ?thesis
    by (intro exI [of _ h'] exI [of _ mp])
      (simp add: op_duration_def sample_profile_def sample_store_def trimmed_duration)
qed

section \<open>filter_op_profiles\<close>

text \<open>
  Claim C2. Take an aggregate that the constructor returned (with or without trimming)
  and any later store in which its accumulators still carry their labels. There
  \<^verbatim>\<open>filter_op_profiles(S)\<close> succeeds and returns a new aggregate whose lookup keys are
  \<open>S \<inter> K\<close>, \<open>K\<close> being the lookup keys of the source aggregate, over the source's
  accumulators with a label in \<open>S\<close>, with the same iteration count, model name and
  compiler name, built with trimming disabled; the store is left as it was, so no
  accumulator's sample sequence is trimmed again.
\<close>

theorem filter_op_profiles_keys:
  assumes "ModelProfile_init h ops it mn cn w = Inr (h', mp)"
    and "\<forall>r \<in> set ops. op_type (h2 r) = op_type (h' r)"
  shows "\<exists>mp'. filter_op_profiles h2 mp S = Inr (h2, mp') \<and>
           fst ` set (op_profiles_dict mp') = S \<inter> fst ` set (op_profiles_dict mp) \<and>
           op_profiles mp' = [r \<leftarrow> op_profiles mp. op_type (h2 r) \<in> S] \<and>
           iteration mp' = iteration mp \<and>
           model_name mp' = model_name mp \<and>
           compiler_name mp' = compiler_name mp \<and>
           with_warmup mp' = False"
proof -
  from assms(1) have mp: "op_profiles mp = ops" "iteration mp = it" "model_name mp = mn"
      "compiler_name mp = cn"
      "fst ` set (op_profiles_dict mp) = (\<lambda>r. op_type (h' r)) ` set ops"
    by (auto simp: ModelProfile_init_eq_Inr keys_dict_by_op_type)
  let ?kept = "[r \<leftarrow> ops. op_type (h2 r) \<in> S]"
  obtain mp' where mp': "ModelProfile_init h2 ?kept it mn cn False = Inr (h2, mp')"
    by (simp add: ModelProfile_init_eq_Inr)
  then have "fst ` set (op_profiles_dict mp') = (\<lambda>r. op_type (h2 r)) ` set ?kept"
    by (auto simp: ModelProfile_init_eq_Inr keys_dict_by_op_type)
  also have "\<dots> = S \<inter> (\<lambda>r. op_type (h2 r)) ` set ops"
    by auto
  also have "(\<lambda>r. op_type (h2 r)) ` set ops = (\<lambda>r. op_type (h' r)) ` set ops"
    using assms(2) by (intro image_cong) simp_all
  finally have "fst ` set (op_profiles_dict mp') = S \<inter> fst ` set (op_profiles_dict mp)"
    by (simp add: mp)
  moreover have "filter_op_profiles h2 mp S = Inr (h2, mp')"
    using mp' by (simp add: filter_op_profiles_def mp)
  moreover from mp' have "op_profiles mp' = ?kept" "iteration mp' = it" "model_name mp' = mn"
      "compiler_name mp' = cn" "with_warmup mp' = False"
    by (auto simp: ModelProfile_init_eq_Inr)
  ultimately show ?thesis
    by (auto simp: mp)
qed

theorem filter_op_profiles_keys_witness:
  "\<exists>h' mp mp'. ModelProfile_init sample_store [0, 1, 2] 1 None None True = Inr (h', mp) \<and>
     filter_op_profiles h' mp {''MatMul'', ''Gemm'', ''FusedMatMul'', ''Add''}
       = Inr (h', mp') \<and>
     fst ` set (op_profiles_dict mp') = {''MatMul'', ''Add''} \<and>
     entries (h' 0) = [(''MatMul.2'', 2000000), (''MatMul.3'', 2000000)]"
proof -
  have ne: "WARM_UP_ROUNDS + 1 \<noteq> 0"
    by (simp add: WARM_UP_ROUNDS_def)
  define h' where "h' = (\<lambda>r. (sample_store r)\<lparr>entries :=
      (warmup_tail 1 ^^ count_list [0, 1, 2] r) (entries (sample_store r))\<rparr>)"
  have "discard_warmup 1 [0, 1, 2] sample_store = Inr h'"
    unfolding h'_def by (rule discard_warmup_effect [OF ne])
  then obtain mp where mp:
    "ModelProfile_init sample_store [0, 1, 2] 1 None None True = Inr (h', mp)"
    by (simp add: ModelProfile_init_eq_Inr)
  then have "fst ` set (op_profiles_dict mp) = (\<lambda>r. op_type (h' r)) ` set [0, 1, 2]"
    by (simp add: ModelProfile_init_eq_Inr keys_dict_by_op_type)
  then have keys: "fst ` set (op_profiles_dict mp) = {''MatMul'', ''Add'', ''Batch-0''}"
    by (simp add: h'_def sample_store_def)
  define S where "S = {''MatMul'', ''Gemm'', ''FusedMatMul'', ''Add''}"
  have same: "\<forall>r \<in> set [0, 1, 2]. op_type (h' r) = op_type (h' r)"
    by simp
  from filter_op_profiles_keys [OF mp same, of S]
  obtain mp' where mp':
    "filter_op_profiles h' mp S = Inr (h', mp')"
    "fst ` set (op_profiles_dict mp') = S \<inter> fst ` set (op_profiles_dict mp)"
    by blast
  have "fst ` set (op_profiles_dict mp') = {''MatMul'', ''Add''}"
    unfolding mp'(2) keys S_def by simp
  moreover have "entries (h' 0) = [(''MatMul.2'', 2000000), (''MatMul.3'', 2000000)]"
    by (simp add: h'_def warmup_tail_def slice_from_def sample_store_def WARM_UP_ROUNDS_def)
  ultimately show ?thesis
    using mp mp'(1) unfolding S_def by blast
qed

section \<open>Lookups and totals\<close>

lemma int_of_float_truncates:
  "\<bar>of_int (int_of_float q)\<bar> \<le> \<bar>q\<bar> \<and> \<bar>q\<bar> < \<bar>of_int (int_of_float q)\<bar> + 1 \<and>
   0 \<le> of_int (int_of_float q) * q"
proof (cases "0 \<le> q")
  case True
  then have "0 \<le> \<lfloor>q\<rfloor>" by simp
  moreover have "of_int \<lfloor>q\<rfloor> \<le> q" "q < of_int \<lfloor>q\<rfloor> + 1"
    by linarith+
  ultimately show ?thesis
    using True by (simp add: int_of_float_def)
next
  case False
  then have "\<lceil>q\<rceil> \<le> 0" by (simp add: ceiling_le_zero)
  then have neg: "(of_int \<lceil>q\<rceil> :: rat) \<le> 0" by simp
  have "q \<le> of_int \<lceil>q\<rceil>" "of_int \<lceil>q\<rceil> < q + 1"
    by linarith+
  moreover have "0 \<le> of_int \<lceil>q\<rceil> * q"
    using neg False by (intro mult_nonpos_nonpos) simp_all
  ultimately show ?thesis
    using False neg by (simp add: int_of_float_def)
qed

lemma total_count_thirds:
  "ProfileEntry_total_count (sample_store 0) 3 = Inr (6004799503160661 / 4503599627370496)"
  "ProfileEntry_total_count (sample_store 0) (- 3) = Inr (- (6004799503160661 / 4503599627370496))"
  by code_simp+

lemma sample_lookups:
  "ProfileEntry_total_duration (sample_store 0) 2 = Inr 5"
  "ProfileEntry_total_count (sample_store 0) 2 = Inr 2"
  by code_simp+

text \<open>
  Claim C7. For every aggregate and every label that is not a key of its lookup,
  \<^verbatim>\<open>op_duration\<close> and \<^verbatim>\<open>op_count\<close> return 0 and raise nothing. For a label that
  the lookup maps to an accumulator, \<^verbatim>\<open>op_duration\<close> is that accumulator's
  \<^verbatim>\<open>total_duration(iteration)\<close>, exception included, and \<^verbatim>\<open>op_count\<close> raises what
  the accumulator's \<^verbatim>\<open>total_count(iteration)\<close> raises or returns its value \<open>q\<close>
  truncated to an integer: the integer \<open>n\<close> of the sign of \<open>q\<close> with
  \<open>\<bar>n\<bar> \<le> \<bar>q\<bar> < \<bar>n\<bar> + 1\<close>.
\<close>

theorem lookup_absent_or_present:
  "(t \<notin> fst ` set (op_profiles_dict mp) \<longrightarrow>
      op_duration h mp t = Inr 0 \<and> op_count h mp t = Inr 0) \<and>
   (\<forall>r. map_of (op_profiles_dict mp) t = Some r \<longrightarrow>
      op_duration h mp t = ProfileEntry_total_duration (h r) (iteration mp) \<and>
      (\<forall>e. ProfileEntry_total_count (h r) (iteration mp) = Inl e \<longrightarrow> op_count h mp t = Inl e) \<and>
      (\<forall>q. ProfileEntry_total_count (h r) (iteration mp) = Inr q \<longrightarrow>
         (\<exists>n. op_count h mp t = Inr n \<and>
              \<bar>of_int n\<bar> \<le> \<bar>q\<bar> \<and> \<bar>q\<bar> < \<bar>of_int n\<bar> + 1 \<and> 0 \<le> of_int n * q)))"
proof -
  have "map_of (op_profiles_dict mp) t = None" if "t \<notin> fst ` set (op_profiles_dict mp)"
    using that by (simp add: map_of_eq_None_iff)
  then show ?thesis
    using int_of_float_truncates by (auto simp: op_duration_def op_count_def)
qed

theorem lookup_absent_or_present_witness:
  "op_duration sample_store sample_profile ''Relu'' = Inr 0 \<and>
   op_count sample_store sample_profile ''Relu'' = Inr 0 \<and>
   op_duration sample_store sample_profile ''MatMul'' = Inr 5 \<and>
   op_count sample_store sample_profile ''MatMul'' = Inr 2 \<and>
   op_count sample_store (sample_profile\<lparr>iteration := 3\<rparr>) ''MatMul'' = Inr 1 \<and>
   op_count sample_store (sample_profile\<lparr>iteration := - 3\<rparr>) ''MatMul'' = Inr (- 1)"
proof -
  define P where "P i = sample_profile\<lparr>iteration := i\<rparr>" for i
  have absent: "''Relu'' \<notin> fst ` set (op_profiles_dict (P i))" for i
    by (simp add: P_def sample_profile_def)
  have present: "map_of (op_profiles_dict (P i)) ''MatMul'' = Some 0" for i
    by (simp add: P_def sample_profile_def)
  have it: "iteration (P i) = i" for i
    by (simp add: P_def)
  have P2: "P 2 = sample_profile"
    by (simp add: P_def sample_profile_def)
  note at = lookup_absent_or_present [of _ _ sample_store]
  have "op_duration sample_store (P 2) ''Relu'' = Inr 0"
    "op_count sample_store (P 2) ''Relu'' = Inr 0"
    using at [of "''Relu''" "P 2"] absent by simp_all
  moreover have "op_duration sample_store (P 2) ''MatMul'' = Inr 5"
    using at [of "''MatMul''" "P 2"] present sample_lookups(1)
    by (simp add: it)
  moreover have "op_count sample_store (P 2) ''MatMul'' = Inr 2"
  proof -
    note at [of "''MatMul''" "P 2", unfolded it, THEN conjunct2, rule_format, OF present,
        THEN conjunct2, THEN conjunct2, rule_format, OF sample_lookups(2)]
    then obtain n where n: "op_count sample_store (P 2) ''MatMul'' = Inr n"
      and b: "\<bar>rat_of_int n\<bar> \<le> \<bar>2\<bar>" "\<bar>2\<bar> < \<bar>rat_of_int n\<bar> + 1" "0 \<le> rat_of_int n * 2"
      by blast
    from b(3) have "0 \<le> n" by simp
    with b(1,2) have "n = 2" by simp
    with n show ?thesis by simp
  qed
  moreover have "op_count sample_store (P 3) ''MatMul'' = Inr 1"
  proof -
    note at [of "''MatMul''" "P 3", unfolded it, THEN conjunct2, rule_format, OF present,
        THEN conjunct2, THEN conjunct2, rule_format, OF total_count_thirds(1)]
    then obtain n where n: "op_count sample_store (P 3) ''MatMul'' = Inr n"
      and b: "\<bar>rat_of_int n\<bar> \<le> \<bar>6004799503160661 / 4503599627370496\<bar>"
        "\<bar>6004799503160661 / 4503599627370496\<bar> < \<bar>rat_of_int n\<bar> + 1"
        "0 \<le> rat_of_int n * (6004799503160661 / 4503599627370496)"
      by blast
    from b(3) have "0 \<le> rat_of_int n"
      by (simp add: zero_le_mult_iff)
    then have pos: "0 \<le> n" by simp
    from b(1) pos have "rat_of_int n < 2" by simp
    then have "n < 2" by simp
    moreover from b(2) pos have "0 < rat_of_int n" by simp
    then have "0 < n" by simp
    ultimately have "n = 1" by simp
    with n show ?thesis by simp
  qed
  moreover have "op_count sample_store (P (- 3)) ''MatMul'' = Inr (- 1)"
  proof -
    note at [of "''MatMul''" "P (- 3)", unfolded it, THEN conjunct2, rule_format, OF present,
        THEN conjunct2, THEN conjunct2, rule_format, OF total_count_thirds(2)]
    then obtain n where n: "op_count sample_store (P (- 3)) ''MatMul'' = Inr n"
      and b: "\<bar>rat_of_int n\<bar> \<le> \<bar>- (6004799503160661 / 4503599627370496)\<bar>"
        "\<bar>- (6004799503160661 / 4503599627370496)\<bar> < \<bar>rat_of_int n\<bar> + 1"
        "0 \<le> rat_of_int n * (- (6004799503160661 / 4503599627370496))"
      by blast
    from b(3) have "rat_of_int n \<le> 0"
      by (simp add: mult_le_0_iff zero_le_mult_iff)
    then have neg: "n \<le> 0" by simp
    from b(1) neg have "- 2 < rat_of_int n" by simp
    then have "- 2 < n" by linarith
    moreover from b(2) neg have "rat_of_int n < 0" by simp
    then have "n < 0" by simp
    ultimately have "n = - 1" by simp
    with n show ?thesis by simp
  qed
  ultimately show ?thesis
    unfolding P2 by (simp add: P_def)
qed






section \<open>analyze_profile_nvtx on a small event stream\<close>

text \<open>With iteration 1, the first two of four \<^verbatim>\<open>Conv.run\<close> samples are warmup: the
  aggregate counts two samples and ten nanoseconds, in milliseconds the double nearest
  to 0.00001.\<close>

lemma nvtx_report_conv:
  "nvtx_report conv_lines [] =
     Inr [(''Conv'', \<lparr>op_type = ''Conv'',
            entries = [(''Conv.run'', 5), (''Conv.run'', 5), (''Conv.run'', 5), (''Conv.run'', 5)]\<rparr>)]"
  by (simp add: conv_lines_def conv_event_def setdefault_def append_entry_def Let_def)

lemma conv_trimmed:
  "ProfileEntry_total_count
     \<lparr>op_type = ''Conv'', entries = [(''Conv.run'', 5), (''Conv.run'', 5)]\<rparr> 1 = Inr 2"
  "ProfileEntry_total_duration
     \<lparr>op_type = ''Conv'', entries = [(''Conv.run'', 5), (''Conv.run'', 5)]\<rparr> 1
   = Inr (5902958103587057 / 590295810358705651712)"
  "fadd 0 (5902958103587057 / 590295810358705651712)
   = 5902958103587057 / 590295810358705651712"
  by code_simp+

lemma analyze_profile_nvtx_conv:
  "\<exists>h' mp out. analyze_profile_nvtx str_float h 0 conv_lines 1 None None = Inr (h', mp, out) \<and>
     op_profiles mp = [0] \<and>
     h' 0 = \<lparr>op_type = ''Conv'', entries = [(''Conv.run'', 5), (''Conv.run'', 5)]\<rparr> \<and>
     op_count h' mp ''Conv'' = Inr 2 \<and>
     op_duration h' mp ''Conv'' = Inr (5902958103587057 / 590295810358705651712) \<and>
     out = [report_line str_float ''Conv'' 2 (5902958103587057 / 590295810358705651712),
            total_line str_float False (5902958103587057 / 590295810358705651712)]"
proof -
  define e where "e = \<lparr>op_type = ''Conv'',
      entries = [(''Conv.run'', 5::int), (''Conv.run'', 5), (''Conv.run'', 5), (''Conv.run'', 5)]\<rparr>"
  define h1 where "h1 = allocate h 0 [e]"
  define h' where "h' = h1(0 := \<lparr>op_type = ''Conv'', entries = [(''Conv.run'', 5), (''Conv.run'', 5)]\<rparr>)"
  define mp where "mp = \<lparr>op_profiles = [0], iteration = 1, model_name = None,
      compiler_name = None, with_warmup = True, op_profiles_dict = [(''Conv'', 0)]\<rparr>"
  have h1: "h1 0 = e"
    by (simp add: h1_def allocate_def)
  have "discard_warmup 1 [0] h1 = Inr h'"
    by (simp add: h1 h'_def e_def floor_div_def slice_from_def WARM_UP_ROUNDS_def)
  then have init: "ModelProfile_init h1 [0] 1 None None True = Inr (h', mp)"
    by (simp add: ModelProfile_init_eq_Inr mp_def h'_def dict_by_op_type_def sorted_reverse_def)
  have rep: "sorted_op_report str_float h' mp =
      Inr (report_line str_float ''Conv'' 2 (5902958103587057 / 590295810358705651712))"
    by (simp add: sorted_op_report_def mp_def h'_def py_sorted_reverse_def sorted_reverse_def
        conv_trimmed)
  have tot: "ModelProfile_total_duration h' mp = Inr (5902958103587057 / 590295810358705651712)"
    by (simp add: ModelProfile_total_duration_def mp_def h'_def startswith_def conv_trimmed)
  have "analyze_profile_nvtx str_float h 0 conv_lines 1 None None =
      Inr (h', mp, [report_line str_float ''Conv'' 2 (5902958103587057 / 590295810358705651712),
                    total_line str_float False (5902958103587057 / 590295810358705651712)])"
    using init rep tot
    by (simp add: analyze_profile_nvtx_def nvtx_report_conv h1_def e_def)
      (simp add: mp_def h'_def startswith_def)
  moreover have "op_count h' mp ''Conv'' = Inr 2" "op_duration h' mp ''Conv'' = Inr (5902958103587057 / 590295810358705651712)"
    by (simp_all add: op_count_def op_duration_def mp_def h'_def conv_trimmed
        int_of_float_def)
  ultimately show ?thesis
    by (intro exI [of _ h'] exI [of _ mp]) (simp add: mp_def h'_def)
qed

section \<open>Auxiliary lemmas on the rows of the table\<close>

lemma header_count_neq [simp]:
  "''Diff'' \<noteq> s @ '' count''" "''Diff%'' \<noteq> s @ '' count''" "''OpType'' \<noteq> s @ '' count''"
proof -
  have l: "last (s @ '' count'') = CHR ''t''" by simp
  show "''Diff'' \<noteq> s @ '' count''"
    using l by (auto dest: arg_cong [where f = last])
  show "''Diff%'' \<noteq> s @ '' count''"
    using l by (auto dest: arg_cong [where f = last])
  show "''OpType'' \<noteq> s @ '' count''"
    using l by (auto dest: arg_cong [where f = last])
qed

lemma header_perf_neq [simp]:
  "''Diff'' \<noteq> s @ '' perf (ms)''" "''Diff%'' \<noteq> s @ '' perf (ms)''"
  "''OpType'' \<noteq> s @ '' perf (ms)''"
proof -
  have l: "last (s @ '' perf (ms)'') = CHR '')''" by simp
  show "''Diff'' \<noteq> s @ '' perf (ms)''"
    using l by (auto dest: arg_cong [where f = last])
  show "''Diff%'' \<noteq> s @ '' perf (ms)''"
    using l by (auto dest: arg_cong [where f = last])
  show "''OpType'' \<noteq> s @ '' perf (ms)''"
    using l by (auto dest: arg_cong [where f = last])
qed

lemma construct_cells:
  "map_of (construct_tabulate_dict b c t bc cc bd cd) ''OpType'' = Some (Str t)"
  "map_of (construct_tabulate_dict b c t bc cc bd cd) ''Diff'' = Some (Num (fsub cd bd))"
  "map_of (construct_tabulate_dict b c t bc cc bd cd) ''Diff%'' = Some (Str (diff_percent bd cd))"
  by (simp_all add: construct_tabulate_dict_def dict_literal_def update_conv' diff_def)

lemma diff_key_construct:
  "diff_key (construct_tabulate_dict b c t bc cc bd cd) = Inr (fsub cd bd)"
  by (simp add: diff_key_def construct_cells)

lemma Diff_construct: "Diff (construct_tabulate_dict b c t bc cc bd cd) = fsub cd bd"
  by (simp add: Diff_def diff_key_construct)

lemma op_row_Inr:
  "op_row h base_report comp_report t = Inr x \<longleftrightarrow>
     (\<exists>bc cc bd cd. op_count h base_report t = Inr bc \<and> op_count h comp_report t = Inr cc \<and>
        op_duration h base_report t = Inr bd \<and> op_duration h comp_report t = Inr cd \<and>
        x = construct_tabulate_dict (compiler_name base_report) (compiler_name comp_report)
              t (of_int bc) (of_int cc) bd cd)"
  by (auto simp: op_row_def ebind_eq_Inr)

lemma op_row_diff_key: "op_row h base_report comp_report t = Inr x \<Longrightarrow> diff_key x = Inr (Diff x)"
  by (auto simp: op_row_Inr diff_key_construct Diff_construct)

lemma op_row_OpType: "op_row h base_report comp_report t = Inr x \<Longrightarrow> map_of x ''OpType'' = Some (Str t)"
  by (auto simp: op_row_Inr construct_cells)

lemma total_row_OpType:
  "total_row h base_report comp_report = Inr x \<Longrightarrow> map_of x ''OpType'' = Some (Str ''Total'')"
  by (auto simp: total_row_def ebind_eq_Inr construct_cells)

lemma collect_length: "collect f xs = Inr ys \<Longrightarrow> length ys = length xs"
  by (auto simp: collect_eq_Inr dest: list_all2_lengthD)

lemma collect_map_projr:
  "collect f xs = Inr ys \<Longrightarrow> ys = map (\<lambda>x. projr (f x)) xs \<and> (\<forall>x \<in> set xs. f x = Inr (projr (f x)))"
proof (induction xs arbitrary: ys)
  case Nil
  then show ?case by simp
next
  case (Cons a xs)
  then show ?case by (auto split: sum.splits)
qed

lemma collect_members:
  assumes "collect f xs = Inr ys" and "y \<in> set ys"
  shows "\<exists>x \<in> set xs. f x = Inr y"
proof -
  from collect_map_projr [OF assms(1)]
  have ys: "ys = map (\<lambda>x. projr (f x)) xs" and ok: "\<forall>x \<in> set xs. f x = Inr (projr (f x))"
    by simp_all
  from assms(2) ys obtain x where "x \<in> set xs" "y = projr (f x)"
    by auto
  with ok show ?thesis by auto
qed

lemma tabulate_data_Inr:
  "tabulate_data set_order h base_report comp_report more_lambdas = Inr rows \<longleftrightarrow>
     (\<exists>op_rows total_r more.
        collect (op_row h base_report comp_report) (row_labels set_order base_report comp_report)
          = Inr op_rows \<and>
        total_row h base_report comp_report = Inr total_r \<and>
        collect (additional_row h base_report comp_report) more_lambdas = Inr more \<and>
        rows = sorted_reverse Diff op_rows @ [total_r] @ more)"
proof -
  have "py_sorted_reverse diff_key op_rows = Inr (sorted_reverse Diff op_rows)"
    if "collect (op_row h base_report comp_report) (row_labels set_order base_report comp_report)
          = Inr op_rows" for op_rows
    using collect_members [OF that] by (intro py_sorted_reverse_pure) (auto dest: op_row_diff_key)
  then show ?thesis
    by (auto simp: tabulate_data_def ebind_eq_Inr row_labels_def)
qed

section \<open>The percentage cell\<close>

lemma round_half_even_nearest: "\<bar>of_int (round_half_even q) - q\<bar> \<le> 1 / 2"
proof -
  have "of_int \<lfloor>q\<rfloor> \<le> q" "q < of_int \<lfloor>q\<rfloor> + 1"
    by linarith+
  then show ?thesis
    by (auto simp: round_half_even_def Let_def abs_le_iff)
qed

lemma round_half_even_nonneg: "0 \<le> q \<Longrightarrow> 0 \<le> round_half_even q"
  by (auto simp: round_half_even_def Let_def)

lemma format_2f_nearest:
  "\<exists>n. 0 \<le> n \<and> \<bar>of_int n - \<bar>q\<bar> * 100\<bar> \<le> 1 / 2 \<and>
        format_2f q = (if q < 0 then ''-'' else []) @ decimal (n div 100) @ ''.''
          @ [digit_char (nat (n mod 100 div 10)), digit_char (nat (n mod 10))]"
proof -
  let ?n = "round_half_even (\<bar>q\<bar> * 100)"
  have "0 \<le> ?n"
    by (rule round_half_even_nonneg) simp
  moreover have "\<bar>of_int ?n - \<bar>q\<bar> * 100\<bar> \<le> 1 / 2"
    by (rule round_half_even_nearest)
  ultimately show ?thesis
    by (intro exI [of _ ?n]) (simp add: format_2f_def Let_def)
qed

lemma op_duration_absent:
  assumes "t \<notin> fst ` set (op_profiles_dict mp)"
  shows "op_duration h mp t = Inr 0"
proof -
  from assms have "map_of (op_profiles_dict mp) t = None"
    by (simp add: map_of_eq_None_iff)
  then show ?thesis
    by (simp add: op_duration_def)
qed

lemma percent_examples:
  "format_2f (fmul (fdiv (fsub 3 2) 2) 100) = ''50.00''"
  "format_2f (fmul (fdiv (fsub 2 3) 3) 100) = ''-33.33''"
  "format_2f (fmul (fdiv (fsub (4504275167314601 / 2251799813685248) 2) 2) 100) = ''0.01''"
  "format_2f (fmul (fdiv (fsub (4504725527277339 / 4503599627370496) 1) 1) 100) = ''0.03''"
  by code_simp+

lemma op_row_tie_Add: "op_row tie_store tie_base tie_comp ''Add'' = Inr (tie_row ''Add'' 1 1)"
  by code_simp

lemma near_rows:
  "op_row near_store near_base near_comp ''Add''
     = Inr (projr (op_row near_store near_base near_comp ''Add''))"
  "op_row near_store near_base near_comp ''Mul''
     = Inr (projr (op_row near_store near_base near_comp ''Mul''))"
  by code_simp+

lemma near_durations:
  "op_duration near_store near_base ''Add'' = Inr 2"
  "op_duration near_store near_comp ''Add'' = Inr (4504275167314601 / 2251799813685248)"
  "op_duration near_store near_base ''Mul'' = Inr 1"
  "op_duration near_store near_comp ''Mul'' = Inr (4504725527277339 / 4503599627370496)"
  by code_simp+

text \<open>
  Claim C5. Every row of the table is built by \<^verbatim>\<open>_construct_tabulate_dict\<close>, and its
  \<^verbatim>\<open>Diff%\<close> cell is the string \<^verbatim>\<open>N/A\<close> when the base duration or the comparison
  duration is zero, and otherwise \<^verbatim>\<open>(comp - base) / base * 100\<close>, computed in doubles
  operation by operation, formatted with two decimals and followed by a percent sign. In
  a per-operator row the two durations are \<^verbatim>\<open>op_duration\<close> of the label in the two
  reports, so a label missing from either lookup gives \<^verbatim>\<open>N/A\<close>. The two decimals are
  those of the integer nearest to a hundred times the absolute value of the double.
\<close>

theorem diff_percent_cell:
  "map_of (construct_tabulate_dict b c t bc cc bd cd) ''Diff%'' =
     Some (Str (if bd = 0 \<or> cd = 0 then ''N/A''
                else format_2f (fmul (fdiv (fsub cd bd) bd) 100) @ ''%'')) \<and>
   (op_row h base_report comp_report t = Inr x \<longrightarrow>
      (\<exists>bd cd. op_duration h base_report t = Inr bd \<and> op_duration h comp_report t = Inr cd \<and>
         map_of x ''Diff%'' =
           Some (Str (if bd = 0 \<or> cd = 0 then ''N/A''
                      else format_2f (fmul (fdiv (fsub cd bd) bd) 100) @ ''%'')))) \<and>
   (op_row h base_report comp_report t = Inr x \<and>
      (t \<notin> fst ` set (op_profiles_dict base_report) \<or>
       t \<notin> fst ` set (op_profiles_dict comp_report)) \<longrightarrow>
      map_of x ''Diff%'' = Some (Str ''N/A'')) \<and>
   (\<exists>n. 0 \<le> n \<and> \<bar>of_int n - \<bar>q\<bar> * 100\<bar> \<le> 1 / 2 \<and>
        format_2f q = (if q < 0 then ''-'' else []) @ decimal (n div 100) @ ''.''
          @ [digit_char (nat (n mod 100 div 10)), digit_char (nat (n mod 10))])"
proof -
  have cell: "map_of (construct_tabulate_dict b c t bc cc bd cd) ''Diff%'' =
     Some (Str (if bd = 0 \<or> cd = 0 then ''N/A''
                else format_2f (fmul (fdiv (fsub cd bd) bd) 100) @ ''%''))" for b c t bc cc bd cd
    by (simp add: construct_cells diff_percent_def)
  have row: "\<exists>bd cd. op_duration h base_report t = Inr bd \<and> op_duration h comp_report t = Inr cd \<and>
         map_of x ''Diff%'' =
           Some (Str (if bd = 0 \<or> cd = 0 then ''N/A''
                      else format_2f (fmul (fdiv (fsub cd bd) bd) 100) @ ''%''))"
    if "op_row h base_report comp_report t = Inr x"
    using that cell by (auto simp: op_row_Inr)
  have absent: "map_of x ''Diff%'' = Some (Str ''N/A'')"
    if "op_row h base_report comp_report t = Inr x"
      and "t \<notin> fst ` set (op_profiles_dict base_report) \<or>
       t \<notin> fst ` set (op_profiles_dict comp_report)"
    using row [OF that(1)] that(2) by (auto simp: op_duration_absent)
  show ?thesis
    using cell row absent format_2f_nearest [of q] by blast
qed

theorem diff_percent_cell_witness:
  "map_of (construct_tabulate_dict None None ''Add'' 5 5 2 3) ''Diff%'' = Some (Str ''50.00%'') \<and>
   map_of (construct_tabulate_dict None None ''Add'' 5 5 3 2) ''Diff%'' = Some (Str ''-33.33%'') \<and>
   map_of (construct_tabulate_dict None None ''Add'' 5 0 1 0) ''Diff%'' = Some (Str ''N/A'') \<and>
   op_row tie_store tie_base tie_comp ''Add'' = Inr (tie_row ''Add'' 1 1) \<and>
   map_of (tie_row ''Add'' 1 1) ''Diff%'' = Some (Str ''N/A'') \<and>
   (\<exists>x. op_row near_store near_base near_comp ''Add'' = Inr x \<and>
        map_of x ''Diff%'' = Some (Str ''0.01%'')) \<and>
   (\<exists>x. op_row near_store near_base near_comp ''Mul'' = Inr x \<and>
        map_of x ''Diff%'' = Some (Str ''0.03%''))"
proof -
  note inst = diff_percent_cell [where h = tie_store and base_report = tie_base
      and comp_report = tie_comp and t = "''Add''" and x = "tie_row ''Add'' 1 1" and q = 0
      and b = None and c = None and bc = 5]
  have "map_of (construct_tabulate_dict None None ''Add'' 5 5 2 3) ''Diff%''
      = Some (Str ''50.00%'')"
    using inst [of 5 2 3, THEN conjunct1] by (simp add: percent_examples)
  moreover have "map_of (construct_tabulate_dict None None ''Add'' 5 5 3 2) ''Diff%''
      = Some (Str ''-33.33%'')"
    using inst [of 5 3 2, THEN conjunct1] by (simp add: percent_examples)
  moreover have "map_of (construct_tabulate_dict None None ''Add'' 5 0 1 0) ''Diff%''
      = Some (Str ''N/A'')"
    using inst [of 0 1 0, THEN conjunct1] by simp
  moreover have "''Add'' \<notin> fst ` set (op_profiles_dict tie_comp)"
    by (simp add: tie_comp_def)
  then have "map_of (tie_row ''Add'' 1 1) ''Diff%'' = Some (Str ''N/A'')"
    using inst [of 0 1 0, THEN conjunct2, THEN conjunct2, THEN conjunct1] op_row_tie_Add
    by blast
  moreover have "\<exists>x. op_row near_store near_base near_comp ''Add'' = Inr x \<and>
        map_of x ''Diff%'' = Some (Str ''0.01%'')"
  proof -
    let ?x = "projr (op_row near_store near_base near_comp ''Add'')"
    from diff_percent_cell [where h = near_store and base_report = near_base
        and comp_report = near_comp and t = "''Add''" and x = ?x,
        THEN conjunct2, THEN conjunct1, rule_format, OF near_rows(1)]
    obtain bd cd where "op_duration near_store near_base ''Add'' = Inr bd"
      and "op_duration near_store near_comp ''Add'' = Inr cd"
      and cell: "map_of ?x ''Diff%'' =
           Some (Str (if bd = 0 \<or> cd = 0 then ''N/A''
                      else format_2f (fmul (fdiv (fsub cd bd) bd) 100) @ ''%''))"
      by blast
    then have "bd = 2" "cd = 4504275167314601 / 2251799813685248"
      by (simp_all add: near_durations)
    with cell have "map_of ?x ''Diff%'' = Some (Str ''0.01%'')"
      by (simp add: percent_examples)
    with near_rows(1) show ?thesis by blast
  qed
  moreover have "\<exists>x. op_row near_store near_base near_comp ''Mul'' = Inr x \<and>
        map_of x ''Diff%'' = Some (Str ''0.03%'')"
  proof -
    let ?x = "projr (op_row near_store near_base near_comp ''Mul'')"
    from diff_percent_cell [where h = near_store and base_report = near_base
        and comp_report = near_comp and t = "''Mul''" and x = ?x,
        THEN conjunct2, THEN conjunct1, rule_format, OF near_rows(2)]
    obtain bd cd where "op_duration near_store near_base ''Mul'' = Inr bd"
      and "op_duration near_store near_comp ''Mul'' = Inr cd"
      and cell: "map_of ?x ''Diff%'' =
           Some (Str (if bd = 0 \<or> cd = 0 then ''N/A''
                      else format_2f (fmul (fdiv (fsub cd bd) bd) 100) @ ''%''))"
      by blast
    then have "bd = 1" "cd = 4504725527277339 / 4503599627370496"
      by (simp_all add: near_durations)
    with cell have "map_of ?x ''Diff%'' = Some (Str ''0.03%'')"
      by (simp add: percent_examples)
    with near_rows(2) show ?thesis by blast
  qed
  ultimately show ?thesis
    using op_row_tie_Add by simp
qed

section \<open>The order of the rows\<close>

lemma descending_sorted_reverse: "descending (sorted_reverse Diff rows)"
  unfolding descending_def by (rule sorted_reverse_descending)

lemma collect_op_row_OpType:
  assumes "collect (op_row h base_report comp_report) ts = Inr rows"
  shows "map (\<lambda>x. map_of x ''OpType'') rows = map (\<lambda>t. Some (Str t)) ts"
proof -
  from collect_map_projr [OF assms]
  have rows: "rows = map (\<lambda>t. projr (op_row h base_report comp_report t)) ts"
    and ok: "\<forall>t \<in> set ts. op_row h base_report comp_report t
              = Inr (projr (op_row h base_report comp_report t))"
    by simp_all
  show ?thesis
    unfolding rows using ok by (auto dest: op_row_OpType)
qed

lemma tie_base_init:
  "ModelProfile_init tie_store [0, 1] 1 None (Some ''ort'') False = Inr (tie_store, tie_base)"
  by (simp add: ModelProfile_init_eq_Inr tie_base_def tie_store_def dict_by_op_type_def
      sorted_reverse_def duration_ms_def)

lemma tie_comp_init:
  "ModelProfile_init tie_store [] 1 None (Some ''torch'') False = Inr (tie_store, tie_comp)"
  by (simp add: ModelProfile_init_eq_Inr tie_comp_def dict_by_op_type_def sorted_reverse_def)

lemma op_row_tie_Mul: "op_row tie_store tie_base tie_comp ''Mul'' = Inr (tie_row ''Mul'' 1 1)"
  by code_simp

lemma total_row_tie: "total_row tie_store tie_base tie_comp = Inr (tie_row ''Total'' 2 2)"
  by code_simp

lemma Diff_tie_row: "Diff (tie_row t n d) = - d"
  by (simp add: Diff_def diff_key_def tie_row_def)

lemma label_union_tie: "label_union tie_base tie_comp = [''Add'', ''Mul'']"
  by (simp add: label_union_def tie_base_def tie_comp_def)

lemma row_labels_tie_id: "row_labels id tie_base tie_comp = [''Add'', ''Mul'']"
  by (simp add: row_labels_def label_union_tie startswith_def)

lemma row_labels_tie_rev: "row_labels rev tie_base tie_comp = [''Mul'', ''Add'']"
  by (simp add: row_labels_def label_union_tie startswith_def)

lemma tabulate_data_tie_id:
  "tabulate_data id tie_store tie_base tie_comp [] =
     Inr [tie_row ''Add'' 1 1, tie_row ''Mul'' 1 1, tie_row ''Total'' 2 2]"
  unfolding tabulate_data_Inr
  by (simp add: row_labels_tie_id op_row_tie_Add op_row_tie_Mul total_row_tie
      sorted_reverse_def Diff_tie_row)

lemma tabulate_data_tie_rev:
  "tabulate_data rev tie_store tie_base tie_comp [] =
     Inr [tie_row ''Mul'' 1 1, tie_row ''Add'' 1 1, tie_row ''Total'' 2 2]"
  unfolding tabulate_data_Inr
  by (simp add: row_labels_tie_rev op_row_tie_Add op_row_tie_Mul total_row_tie
      sorted_reverse_def Diff_tie_row)

text \<open>
  Claim C3, as the code has it. In the list of rows that \<^verbatim>\<open>tabulate_diff\<close> renders,
  the per-operator rows come first, one for every label of either lookup that does not
  start with \<^verbatim>\<open>Batch-\<close>, sorted by descending \<^verbatim>\<open>Diff\<close> (comparison duration minus
  base duration), where rows of equal difference may follow each other; the row right
  after them is the \<^verbatim>\<open>Total\<close> row, whatever its own difference; the rows of the
  caller come after it.
\<close>

theorem tabulate_rows_order:
  assumes "tabulate_data set_order h base_report comp_report more_lambdas = Inr rows"
  shows "let n = length (row_labels set_order base_report comp_report) in
           length rows = n + 1 + length more_lambdas \<and>
           descending (take n rows) \<and>
           mset (map (\<lambda>x. map_of x ''OpType'') (take n rows)) =
             mset (map (\<lambda>t. Some (Str t)) (row_labels set_order base_report comp_report)) \<and>
           total_row h base_report comp_report = Inr (rows ! n) \<and>
           map_of (rows ! n) ''OpType'' = Some (Str ''Total'') \<and>
           collect (additional_row h base_report comp_report) more_lambdas
             = Inr (drop (Suc n) rows)"
proof -
  let ?labels = "row_labels set_order base_report comp_report"
  from assms obtain op_rows total_r more where
    op_rows: "collect (op_row h base_report comp_report) ?labels = Inr op_rows"
    and total_r: "total_row h base_report comp_report = Inr total_r"
    and more: "collect (additional_row h base_report comp_report) more_lambdas = Inr more"
    and rows: "rows = sorted_reverse Diff op_rows @ [total_r] @ more"
    unfolding tabulate_data_Inr by blast
  have len: "length (sorted_reverse Diff op_rows) = length ?labels"
    using collect_length [OF op_rows] by simp
  have take: "take (length ?labels) rows = sorted_reverse Diff op_rows"
    using len by (simp add: rows)
  have nth: "rows ! length ?labels = total_r"
    using len by (simp add: rows nth_append)
  have drop: "drop (Suc (length ?labels)) rows = more"
    using len by (simp add: rows)
  have "mset (map (\<lambda>x. map_of x ''OpType'') (sorted_reverse Diff op_rows)) =
      mset (map (\<lambda>x. map_of x ''OpType'') op_rows)"
    by simp
  also have "\<dots> = mset (map (\<lambda>t. Some (Str t)) ?labels)"
    by (simp only: collect_op_row_OpType [OF op_rows])
  finally have labels: "mset (map (\<lambda>x. map_of x ''OpType'') (sorted_reverse Diff op_rows)) =
      mset (map (\<lambda>t. Some (Str t)) ?labels)" .
  have "length rows = length ?labels + 1 + length more_lambdas"
    using len collect_length [OF more] by (simp add: rows)
  then show ?thesis
    unfolding Let_def take nth drop
    using descending_sorted_reverse labels total_r more total_row_OpType [OF total_r]
    by simp
qed

theorem tabulate_rows_order_witness:
  "length [tie_row ''Add'' 1 1, tie_row ''Mul'' 1 1, tie_row ''Total'' 2 2] = 2 + 1 + 0 \<and>
   descending [tie_row ''Add'' 1 1, tie_row ''Mul'' 1 1] \<and>
   total_row tie_store tie_base tie_comp = Inr (tie_row ''Total'' 2 2) \<and>
   map_of (tie_row ''Total'' 2 2) ''OpType'' = Some (Str ''Total'')"
  using tabulate_rows_order [OF tabulate_data_tie_id]
  by (simp add: row_labels_tie_id Let_def)

text \<open>
  The claim says "strictly descending". Two operators of the same difference give two
  adjacent rows of equal \<^verbatim>\<open>Diff\<close>: here \<^verbatim>\<open>Add\<close> and \<^verbatim>\<open>Mul\<close>, one millisecond each
  in the base run and absent from the comparison run.
\<close>

theorem strict_order_counterexample:
  "ModelProfile_init tie_store [0, 1] 1 None (Some ''ort'') False = Inr (tie_store, tie_base) \<and>
   ModelProfile_init tie_store [] 1 None (Some ''torch'') False = Inr (tie_store, tie_comp) \<and>
   tabulate_data id tie_store tie_base tie_comp [] =
     Inr [tie_row ''Add'' 1 1, tie_row ''Mul'' 1 1, tie_row ''Total'' 2 2] \<and>
   Diff (tie_row ''Add'' 1 1) = - 1 \<and> Diff (tie_row ''Mul'' 1 1) = - 1 \<and>
   \<not> strictly_descending [tie_row ''Add'' 1 1, tie_row ''Mul'' 1 1]"
  by (intro conjI tie_base_init tie_comp_init tabulate_data_tie_id)
    (simp_all add: Diff_tie_row strictly_descending_def)

section \<open>The order of rows of equal difference\<close>

lemma sorted_reverse_unique:
  assumes "mset xs = mset ys" and "inj_on f (set xs)"
  shows "sorted_reverse f xs = sorted_reverse f ys"
proof -
  have "sort_key f (rev xs) = sort_key f (rev ys)"
  proof (rule sort_key_inj_key_eq)
    show "mset (rev xs) = mset (sort_key f (rev ys))"
      using assms(1) by simp
    show "inj_on f (set (rev xs))"
      using assms(2) by simp
    show "sorted (map f (sort_key f (rev ys)))"
      by simp
  qed
  then show ?thesis
    by (simp add: sorted_reverse_def)
qed

lemma row_labels_rearranged:
  assumes "rearranges so1 (label_union base_report comp_report)"
    and "rearranges so2 (label_union base_report comp_report)"
  shows "mset (row_labels so2 base_report comp_report) = mset (row_labels so1 base_report comp_report)"
  using assms by (simp add: row_labels_def rearranges_def)

lemma sorted_reverse_stable:
  "[x \<leftarrow> sorted_reverse f xs. f x = k] = [x \<leftarrow> xs. f x = k]"
proof -
  have "[x \<leftarrow> sorted_reverse f xs. f x = k] = rev [x \<leftarrow> sort_key f (rev xs). f x = k]"
    by (simp add: sorted_reverse_def rev_filter)
  also have "\<dots> = rev [x \<leftarrow> rev xs. f x = k]"
    by (simp only: sort_key_stable)
  also have "\<dots> = [x \<leftarrow> xs. f x = k]"
    by (simp add: rev_filter)
  finally show ?thesis .
qed

lemma rearranges_id: "rearranges id xs"
  by (simp add: rearranges_def)

lemma rearranges_rev: "rearranges rev xs"
  by (simp add: rearranges_def)

text \<open>
  Claim C4, as the code has it. The rows are a function of the two reports, the store,
  the extra-row specifications and the order in which the interpreter iterates over the
  set of labels. Under two such orders (each listing every label once) the second table
  is produced whenever the first is, with the same rows in the same multiplicity: the
  per-operator rows are the same up to their order and descending by difference in both,
  the \<^verbatim>\<open>Total\<close> row and the caller's rows are identical and in the same places, and
  the two sequences of rows are equal when no two per-operator rows have the same
  difference. The relative order of rows of equal difference is that of the set: from
  top to bottom, the rows of one difference carry the labels of that difference in the
  order of the set.
\<close>

theorem tabulate_data_set_order:
  assumes "tabulate_data so1 h base_report comp_report more_lambdas = Inr rows1"
    and "rearranges so1 (label_union base_report comp_report)"
    and "rearranges so2 (label_union base_report comp_report)"
  shows "\<exists>rows2. tabulate_data so2 h base_report comp_report more_lambdas = Inr rows2 \<and>
           mset rows2 = mset rows1 \<and>
           (let n = length (row_labels so1 base_report comp_report) in
              length (row_labels so2 base_report comp_report) = n \<and>
              descending (take n rows1) \<and> descending (take n rows2) \<and>
              mset (take n rows2) = mset (take n rows1) \<and>
              drop n rows2 = drop n rows1 \<and>
              (distinct (map Diff (take n rows1)) \<longrightarrow> rows2 = rows1)) \<and>
           (\<forall>d. map (\<lambda>x. map_of x ''OpType'')
                  [x \<leftarrow> take (length (row_labels so1 base_report comp_report)) rows1.
                     Diff x = d] =
                map (\<lambda>t. Some (Str t))
                  [t \<leftarrow> row_labels so1 base_report comp_report.
                     \<exists>x. op_row h base_report comp_report t = Inr x \<and> Diff x = d])"
proof -
  let ?l1 = "row_labels so1 base_report comp_report"
  let ?l2 = "row_labels so2 base_report comp_report"
  let ?g = "\<lambda>t. projr (op_row h base_report comp_report t)"
  from assms(1) obtain op_rows1 total_r more where
    op_rows1: "collect (op_row h base_report comp_report) ?l1 = Inr op_rows1"
    and total_r: "total_row h base_report comp_report = Inr total_r"
    and more: "collect (additional_row h base_report comp_report) more_lambdas = Inr more"
    and rows1: "rows1 = sorted_reverse Diff op_rows1 @ [total_r] @ more"
    unfolding tabulate_data_Inr by blast
  have labels: "mset ?l2 = mset ?l1"
    by (rule row_labels_rearranged [OF assms(2,3)])
  then have set_labels: "set ?l2 = set ?l1"
    by (rule mset_eq_setD)
  have len_labels: "length ?l2 = length ?l1"
    using labels by (rule mset_eq_length)
  from collect_map_projr [OF op_rows1]
  have op_rows1_map: "op_rows1 = map ?g ?l1"
    and ok: "\<forall>t \<in> set ?l1. op_row h base_report comp_report t = Inr (?g t)"
    by simp_all
  define op_rows2 where "op_rows2 = map ?g ?l2"
  have op_rows2: "collect (op_row h base_report comp_report) ?l2 = Inr op_rows2"
    unfolding op_rows2_def using ok set_labels by (intro collect_pure) simp
  define rows2 where "rows2 = sorted_reverse Diff op_rows2 @ [total_r] @ more"
  have t2: "tabulate_data so2 h base_report comp_report more_lambdas = Inr rows2"
    unfolding tabulate_data_Inr rows2_def using op_rows2 total_r more by blast
  have mset_ops: "mset op_rows2 = mset op_rows1"
    unfolding op_rows2_def op_rows1_map using labels by simp
  have len1: "length (sorted_reverse Diff op_rows1) = length ?l1"
    by (simp add: op_rows1_map)
  have len2: "length (sorted_reverse Diff op_rows2) = length ?l1"
    by (simp add: op_rows2_def len_labels)
  have take1: "take (length ?l1) rows1 = sorted_reverse Diff op_rows1"
    using len1 by (simp add: rows1)
  have take2: "take (length ?l1) rows2 = sorted_reverse Diff op_rows2"
    using len2 by (simp add: rows2_def)
  have drop1: "drop (length ?l1) rows1 = [total_r] @ more"
    using len1 by (simp add: rows1)
  have drop2: "drop (length ?l1) rows2 = [total_r] @ more"
    using len2 by (simp add: rows2_def)
  have same: "rows2 = rows1" if "distinct (map Diff (sorted_reverse Diff op_rows1))"
  proof -
    from that have "inj_on Diff (set op_rows1)"
      by (simp add: distinct_map)
    then have "inj_on Diff (set op_rows2)"
      using mset_eq_setD [OF mset_ops] by simp
    with mset_ops have "sorted_reverse Diff op_rows2 = sorted_reverse Diff op_rows1"
      by (rule sorted_reverse_unique)
    then show ?thesis
      by (simp add: rows1 rows2_def)
  qed
  have "mset rows2 = mset rows1"
    by (simp add: rows1 rows2_def mset_ops)
  moreover have "mset (sorted_reverse Diff op_rows2) = mset (sorted_reverse Diff op_rows1)"
    by (simp add: mset_ops)
  ultimately have main: "tabulate_data so2 h base_report comp_report more_lambdas = Inr rows2 \<and>
           mset rows2 = mset rows1 \<and>
           (let n = length ?l1 in
              length ?l2 = n \<and>
              descending (take n rows1) \<and> descending (take n rows2) \<and>
              mset (take n rows2) = mset (take n rows1) \<and>
              drop n rows2 = drop n rows1 \<and>
              (distinct (map Diff (take n rows1)) \<longrightarrow> rows2 = rows1))"
    unfolding Let_def take1 take2 drop1 drop2
    using t2 len_labels same descending_sorted_reverse by blast
  have ties: "map (\<lambda>x. map_of x ''OpType'') [x \<leftarrow> take (length ?l1) rows1. Diff x = d] =
      map (\<lambda>t. Some (Str t))
        [t \<leftarrow> ?l1. \<exists>x. op_row h base_report comp_report t = Inr x \<and> Diff x = d]" for d
  proof -
    have "[x \<leftarrow> take (length ?l1) rows1. Diff x = d] = [x \<leftarrow> op_rows1. Diff x = d]"
      unfolding take1 by (rule sorted_reverse_stable)
    also have "\<dots> = map ?g [t \<leftarrow> ?l1. Diff (?g t) = d]"
      by (simp add: op_rows1_map filter_map comp_def)
    also have "[t \<leftarrow> ?l1. Diff (?g t) = d] =
        [t \<leftarrow> ?l1. \<exists>x. op_row h base_report comp_report t = Inr x \<and> Diff x = d]"
      using ok by (intro filter_cong) auto
    finally have "map (\<lambda>x. map_of x ''OpType'') [x \<leftarrow> take (length ?l1) rows1. Diff x = d] =
        map (\<lambda>t. map_of (?g t) ''OpType'')
          [t \<leftarrow> ?l1. \<exists>x. op_row h base_report comp_report t = Inr x \<and> Diff x = d]"
      by (simp add: comp_def)
    also have "\<dots> = map (\<lambda>t. Some (Str t))
          [t \<leftarrow> ?l1. \<exists>x. op_row h base_report comp_report t = Inr x \<and> Diff x = d]"
      using ok by (intro map_cong) (auto dest: op_row_OpType)
    finally show ?thesis .
  qed
  from main ties show ?thesis
    by blast
qed

theorem tabulate_data_set_order_witness:
  "\<exists>rows2. tabulate_data rev tie_store tie_base tie_comp [] = Inr rows2 \<and>
     mset rows2 = mset [tie_row ''Add'' 1 1, tie_row ''Mul'' 1 1, tie_row ''Total'' 2 2] \<and>
     descending (take 2 rows2) \<and>
     drop 2 rows2 = [tie_row ''Total'' 2 2]"
proof -
  define rows1 where "rows1 = [tie_row ''Add'' 1 1, tie_row ''Mul'' 1 1, tie_row ''Total'' 2 2]"
  have t1: "tabulate_data id tie_store tie_base tie_comp [] = Inr rows1"
    unfolding rows1_def by (rule tabulate_data_tie_id)
  have n: "length (row_labels id tie_base tie_comp) = 2"
    by (simp add: row_labels_tie_id)
  from tabulate_data_set_order [OF t1 rearranges_id rearranges_rev]
  obtain rows2 where "tabulate_data rev tie_store tie_base tie_comp [] = Inr rows2"
    and "mset rows2 = mset rows1"
    and "descending (take 2 rows2)"
    and "drop 2 rows2 = drop 2 rows1"
    unfolding Let_def n by blast
  then show ?thesis
    unfolding rows1_def by (intro exI [of _ rows2]) simp
qed

text \<open>
  The claim says that the relative order of rows of equal difference is reproducible.
  The same two reports under two iteration orders of the set \<^verbatim>\<open>{"Add", "Mul"}\<close>:
\<close>

theorem set_order_counterexample:
  "rearranges id (label_union tie_base tie_comp) \<and>
   rearranges rev (label_union tie_base tie_comp) \<and>
   tabulate_data id tie_store tie_base tie_comp [] =
     Inr [tie_row ''Add'' 1 1, tie_row ''Mul'' 1 1, tie_row ''Total'' 2 2] \<and>
   tabulate_data rev tie_store tie_base tie_comp [] =
     Inr [tie_row ''Mul'' 1 1, tie_row ''Add'' 1 1, tie_row ''Total'' 2 2] \<and>
   tabulate_data rev tie_store tie_base tie_comp [] \<noteq>
     tabulate_data id tie_store tie_base tie_comp []"
proof -
  have "tie_row ''Mul'' 1 1 \<noteq> tie_row ''Add'' 1 1"
    by (simp add: tie_row_def)
  then show ?thesis
    by (simp add: rearranges_id rearranges_rev tabulate_data_tie_id tabulate_data_tie_rev)
qed

section \<open>analyze_profile: the report of a Node trace\<close>

lemma node_report_matmul:
  "node_report matmul_trace [] =
     Inr [(''MatMul'', \<lparr>op_type = ''MatMul'',
            entries = [(''MatMul_0'', 1000000), (''MatMul_1'', 2000000)]\<rparr>)]"
  by (simp add: matmul_trace_def setdefault_def append_entry_def)

lemma node_report_two_types:
  "node_report two_types_trace [] =
     Inr [(''MatMul'', \<lparr>op_type = ''MatMul'', entries = [(''MatMul_0'', 1000000)]\<rparr>),
          (''Add'', \<lparr>op_type = ''Add'', entries = [(''Add_0'', 2000000)]\<rparr>)]"
  by (simp add: two_types_trace_def setdefault_def append_entry_def)

lemma matmul_numbers:
  "round_double 2 = 2" "fdiv (fdiv (round_double 3000000) 1000) 1000 = 3" "fadd 0 3 = 3"
  by code_simp+

lemma analyze_profile_one_type:
  "analyze_profile str_float matmul_trace =
     Inr [report_line str_float ''MatMul'' 2 3, total_line str_float False 3]"
  by (simp add: analyze_profile_def node_report_matmul sorted_by_unordered_key_def
      ProfileEntry_total_count_def ProfileEntry_total_duration_def true_div_def
      matmul_numbers)

lemma analyze_profile_unordered:
  assumes "node_report profile_json [] = Inr report" and "2 \<le> length report"
  shows "analyze_profile str_float profile_json = Inl TypeError"
  using assms by (simp add: analyze_profile_def sorted_by_unordered_key_def)

text \<open>
  Claim C8 says that for every Node trace the report has one line per operator type, by
  descending total duration, followed by the grand total. With one operator type it
  does (\<open>analyze_profile_one_type\<close>). With two or more, the sort compares the bound
  methods that its key returns, raises \<^verbatim>\<open>TypeError\<close>, and nothing is printed
  (\<open>analyze_profile_unordered\<close>): here on two events of two operator types.
\<close>

theorem analyze_profile_two_types:
  "analyze_profile str_float two_types_trace = Inl TypeError"
  by (simp add: analyze_profile_def node_report_two_types sorted_by_unordered_key_def)

section \<open>main: the command line\<close>

lemma upt_3: "[0 ..< length main_parser] = [0, 1, 2]"
  by (simp add: main_parser_def upt_rec)

lemma convert_error: "convert to_int a v = Inl e \<Longrightarrow> e = SystemExit"
  by (auto simp: convert_def split: arg_type.splits option.splits if_splits)

lemma store_values_keys:
  "store_values to_int parser found ns = Inr ns' \<Longrightarrow> i \<in> fst ` set ns' \<Longrightarrow>
   i \<in> fst ` set ns \<or> i \<in> fst ` set found"
proof (induction to_int parser found ns rule: store_values.induct)
  case (1 to_int parser ns)
  then show ?case by simp
next
  case (2 to_int parser j v rest ns)
  from "2.prems"(1) obtain x where j: "j < length parser"
    and x: "convert to_int (parser ! j) v = Inr x"
    and rest: "store_values to_int parser rest (AList.update j x ns) = Inr ns'"
    by (auto simp: ebind_eq_Inr split: if_splits)
  from "2.IH" [OF j rest "2.prems"(2)]
  show ?case
    by (auto simp: dom_update)
qed

lemma store_values_error:
  "store_values to_int parser found ns = Inl e \<Longrightarrow> e = SystemExit"
proof (induction to_int parser found ns rule: store_values.induct)
  case (1 to_int parser ns)
  then show ?case by simp
next
  case (2 to_int parser j v rest ns)
  show ?case
  proof (cases "j < length parser")
    case False
    with "2.prems" show ?thesis by simp
  next
    case True
    show ?thesis
    proof (cases "convert to_int (parser ! j) v")
      case (Inl e')
      with "2.prems" True show ?thesis by (simp add: convert_error)
    next
      case (Inr x)
      with "2.prems" True "2.IH" [OF True] show ?thesis by simp
    qed
  qed
qed

lemma main_needs_iteration:
  assumes "\<forall>found. scan main_parser argv = Some found \<longrightarrow> 2 \<notin> fst ` set found"
  shows "main scan to_int argv = Inl SystemExit"
proof (cases "scan main_parser argv")
  case None
  then show ?thesis
    by (simp add: main_def parse_args_def)
next
  case (Some found)
  with assms have no_it: "2 \<notin> fst ` set found" by simp
  show ?thesis
  proof (cases "store_values to_int main_parser found []")
    case (Inl e)
    then have "e = SystemExit"
      by (rule store_values_error)
    with Inl Some show ?thesis
      by (simp add: main_def parse_args_def)
  next
    case (Inr ns)
    have "2 \<notin> fst ` set ns"
      using store_values_keys [OF Inr, of 2] no_it by auto
    then have "map_of ns 2 = None"
      by (simp add: map_of_eq_None_iff)
    moreover have "2 \<in> set [0 ..< length main_parser]" "required (main_parser ! 2)"
      by (simp_all add: main_parser_def)
    ultimately have "\<not> (\<forall>i \<in> set [0 ..< length main_parser].
        required (main_parser ! i) \<longrightarrow> map_of ns i \<noteq> None)"
      by blast
    then have "parse_args scan to_int main_parser argv = Inl SystemExit"
      using Inr Some by (simp only: parse_args_def ebind_Inr if_False option.case)
    then show ?thesis
      by (simp add: main_def)
  qed
qed

lemma main_accepts:
  assumes "scan main_parser argv = Some [(0, p), (1, ty), (2, s)]"
    and "ty = ''ortcpu'' \<or> ty = ''nvtx''" and "to_int s = Some n"
  shows "main scan to_int argv =
     Inr (if ty = ''ortcpu'' then Analyze_profile (StrVal p)
          else Analyze_profile_nvtx (StrVal p) (IntVal n))"
  using assms
  by (auto simp: main_def parse_args_def upt_3 convert_def main_parser_def namespace_get_def)

lemma int_of_string_3: "int_of_string ''3'' = Some 3"
  by code_simp

lemma scan_exact_examples:
  "scan_exact main_parser [''--profile-path'', ''trace.json'', ''--type'', ''nvtx'']
     = Some [(0, ''trace.json''), (1, ''nvtx'')]"
  "scan_exact main_parser
     [''--profile-path'', ''trace.json'', ''--type'', ''ortcpu'', ''--iteration'', ''3'']
     = Some [(0, ''trace.json''), (1, ''ortcpu''), (2, ''3'')]"
  "scan_exact main_parser
     [''--profile-path'', ''trace.json'', ''--type'', ''nvtx'', ''--iteration'', ''3'']
     = Some [(0, ''trace.json''), (1, ''nvtx''), (2, ''3'')]"
  by code_simp+

text \<open>
  Claim C9, as the code has it. \<^verbatim>\<open>--iteration\<close> is declared with
  \<^verbatim>\<open>required=True\<close> for every invocation: a command line on which the parser finds no
  occurrence of it is rejected, whatever the type; a command line on which the parser
  finds the path, a type and an iteration count that \<^verbatim>\<open>int\<close> accepts is accepted for
  \<^verbatim>\<open>ortcpu\<close> and for \<^verbatim>\<open>nvtx\<close>, and only the \<^verbatim>\<open>nvtx\<close> analysis receives the count.
\<close>

theorem iteration_flag_required:
  "((\<forall>found. scan main_parser argv = Some found \<longrightarrow> 2 \<notin> fst ` set found) \<longrightarrow>
      main scan to_int argv = Inl SystemExit) \<and>
   (scan main_parser argv = Some [(0, p), (1, ty), (2, s)] \<and>
      (ty = ''ortcpu'' \<or> ty = ''nvtx'') \<and> to_int s = Some n \<longrightarrow>
      main scan to_int argv =
        Inr (if ty = ''ortcpu'' then Analyze_profile (StrVal p)
             else Analyze_profile_nvtx (StrVal p) (IntVal n)))"
  using main_needs_iteration main_accepts by blast

theorem iteration_flag_required_witness:
  "main scan_exact int_of_string [''--profile-path'', ''trace.json'', ''--type'', ''nvtx'']
     = Inl SystemExit \<and>
   main scan_exact int_of_string
     [''--profile-path'', ''trace.json'', ''--type'', ''ortcpu'', ''--iteration'', ''3'']
     = Inr (Analyze_profile (StrVal ''trace.json'')) \<and>
   main scan_exact int_of_string
     [''--profile-path'', ''trace.json'', ''--type'', ''nvtx'', ''--iteration'', ''3'']
     = Inr (Analyze_profile_nvtx (StrVal ''trace.json'') (IntVal 3))"
proof -
  note rule = iteration_flag_required [where scan = scan_exact and to_int = int_of_string]
  have "\<forall>found. scan_exact main_parser
      [''--profile-path'', ''trace.json'', ''--type'', ''nvtx''] = Some found \<longrightarrow>
      2 \<notin> fst ` set found"
    unfolding scan_exact_examples(1) by simp
  then have "main scan_exact int_of_string
      [''--profile-path'', ''trace.json'', ''--type'', ''nvtx''] = Inl SystemExit"
    by (rule rule [THEN conjunct1, THEN mp])
  moreover have "main scan_exact int_of_string
     [''--profile-path'', ''trace.json'', ''--type'', ''ortcpu'', ''--iteration'', ''3'']
     = Inr (Analyze_profile (StrVal ''trace.json''))"
    using rule [THEN conjunct2, rule_format,
        of "[''--profile-path'', ''trace.json'', ''--type'', ''ortcpu'', ''--iteration'', ''3'']"
        "''trace.json''" "''ortcpu''" "''3''" 3]
      scan_exact_examples(2) int_of_string_3
    by (simp del: scan_exact.simps)
  moreover have "main scan_exact int_of_string
     [''--profile-path'', ''trace.json'', ''--type'', ''nvtx'', ''--iteration'', ''3'']
     = Inr (Analyze_profile_nvtx (StrVal ''trace.json'') (IntVal 3))"
    using rule [THEN conjunct2, rule_format,
        of "[''--profile-path'', ''trace.json'', ''--type'', ''nvtx'', ''--iteration'', ''3'']"
        "''trace.json''" "''nvtx''" "''3''" 3]
      scan_exact_examples(3) int_of_string_3
    by (simp del: scan_exact.simps)
  ultimately show ?thesis by simp
qed

text \<open>
  The claim says that an \<^verbatim>\<open>ortcpu\<close> invocation without the iteration flag is accepted.
  On this command line the parser finds the path and the type, and exits.
\<close>

theorem ortcpu_without_iteration_counterexample:
  "scan_exact main_parser [''--profile-path'', ''trace.json'', ''--type'', ''ortcpu'']
     = Some [(0, ''trace.json''), (1, ''ortcpu'')] \<and>
   main scan_exact int_of_string [''--profile-path'', ''trace.json'', ''--type'', ''ortcpu'']
     = Inl SystemExit"
  by code_simp

end
